theory Spec2Isabelle
  imports Complex_Main
begin

section \<open>Strings\<close>

text \<open>
  Python strings are modelled as \<^typ>\<open>string\<close>, restricted to ASCII: \<open>str.lower\<close> and
  \<open>str.upper\<close> change the 26 ASCII letters and leave every other character alone.
\<close>

definition lower_char :: "char \<Rightarrow> char" where
  "lower_char c =
     (case map_of (zip ''ABCDEFGHIJKLMNOPQRSTUVWXYZ'' ''abcdefghijklmnopqrstuvwxyz'') c of
        Some d \<Rightarrow> d | None \<Rightarrow> c)"

definition upper_char :: "char \<Rightarrow> char" where
  "upper_char c =
     (case map_of (zip ''abcdefghijklmnopqrstuvwxyz'' ''ABCDEFGHIJKLMNOPQRSTUVWXYZ'') c of
        Some d \<Rightarrow> d | None \<Rightarrow> c)"

definition lower :: "string \<Rightarrow> string" where
  "lower s = map lower_char s"

definition upper :: "string \<Rightarrow> string" where
  "upper s = map upper_char s"

text \<open>\<open>s.startswith(p)\<close>.\<close>

definition startswith :: "string \<Rightarrow> string \<Rightarrow> bool" where
  "startswith s p = (take (length p) s = p)"

section \<open>Element trees\<close>

text \<open>
  An \<open>xml.etree.ElementTree.Element\<close>: its tag, its attributes (a dictionary, read with
  \<open>elem.get\<close>) and its children in document order.
\<close>

datatype xml = Element (tag: string) (attrib: "(string \<times> string) list") (children: "xml list")

text \<open>\<open>elem.get(key)\<close> and \<open>elem.get(key, default)\<close>.\<close>

definition get :: "xml \<Rightarrow> string \<Rightarrow> string option" where
  "get e k = map_of (attrib e) k"

definition get_default :: "xml \<Rightarrow> string \<Rightarrow> string \<Rightarrow> string" where
  "get_default e k d = (case get e k of Some v \<Rightarrow> v | None \<Rightarrow> d)"

text \<open>\<open>elem.iter()\<close>: the element and all its descendants, in document order.\<close>

fun iter :: "xml \<Rightarrow> xml list" where
  "iter (Element t a cs) = Element t a cs # concat (map iter cs)"

text \<open>\<open>elem.find('.//t')\<close>: the first proper descendant with tag \<open>t\<close>, in document order.\<close>

definition find_descendant :: "xml \<Rightarrow> string \<Rightarrow> xml option" where
  "find_descendant e t = find (\<lambda>x. tag x = t) (concat (map iter (children e)))"

text \<open>\<open>elem.findall('t')\<close>: the direct children with tag \<open>t\<close>.\<close>

definition findall :: "xml \<Rightarrow> string \<Rightarrow> xml list" where
  "findall e t = filter (\<lambda>x. tag x = t) (children e)"

section \<open>The tree type catalog\<close>

text \<open>
  A variation is the dictionary \<open>{'filename': ..., 'name': ...}\<close>, kept as an association
  list; a stage holds its 1-based index and its variations.
\<close>

record TreeTypeStage =
  stage_index :: int
  variations :: "(string \<times> string) list list"

record TreeTypeDesc =
  desc_name :: string
  split_type :: string
  title :: string
  stages :: "TreeTypeStage list"

definition max_stage :: "TreeTypeDesc \<Rightarrow> int" where
  "max_stage d = int (length (stages d))"

text \<open>\<open>TreeTypeLoader.tree_types\<close>: uppercased name to descriptor.\<close>

type_synonym TreeTypeLoader = "string \<rightharpoonup> TreeTypeDesc"

text \<open>
  The files of the disk, by path: no file at the path (\<open>path.exists()\<close> is false), a
  file on which \<open>ET.parse\<close> raises \<open>ParseError\<close>, or a file that parses to a document
  with the given root element.
\<close>

datatype source = Missing | Malformed | Document xml

type_synonym files = "string \<Rightarrow> source"

datatype error = IndexError | FileNotFoundError

text \<open>
  The \<open>$data/\<close> macro: with a base directory, a filename starting with \<open>$data/\<close> becomes
  \<open>str(base_directory / filename[6:])\<close>. The path join of \<open>pathlib\<close> is the parameter
  \<open>pjoin\<close>.
\<close>

definition resolve_data :: "(string \<Rightarrow> string \<Rightarrow> string) \<Rightarrow> string option \<Rightarrow> string \<Rightarrow> string" where
  "resolve_data pjoin base_directory filename =
     (case base_directory of
        Some b \<Rightarrow> if startswith filename ''$data/'' then pjoin b (drop 6 filename) else filename
      | None \<Rightarrow> filename)"

text \<open>The variations of one \<open>stage\<close> element: its own filename, or its \<open>variation\<close> children.\<close>

definition stage_variations ::
  "(string \<Rightarrow> string \<Rightarrow> string) \<Rightarrow> string option \<Rightarrow> xml \<Rightarrow> (string \<times> string) list list" where
  "stage_variations pjoin base_directory stage_elem =
     (case get stage_elem ''filename'' of
        Some filename \<Rightarrow>
          if filename \<noteq> [] then [[(''filename'', resolve_data pjoin base_directory filename)]]
          else map (\<lambda>var_elem.
                 [(''filename'', resolve_data pjoin base_directory (get_default var_elem ''filename'' [])),
                  (''name'', get_default var_elem ''name'' [])])
               (findall stage_elem ''variation'')
      | None \<Rightarrow>
          map (\<lambda>var_elem.
                 [(''filename'', resolve_data pjoin base_directory (get_default var_elem ''filename'' [])),
                  (''name'', get_default var_elem ''name'' [])])
               (findall stage_elem ''variation''))"

text \<open>
  The loop over the \<open>stage\<close> elements of one type, with its two variables \<open>stages\<close> and
  \<open>stage_index\<close>: a stage without variations is skipped and does not use up an index.
\<close>

fun parse_stages ::
  "(string \<Rightarrow> string \<Rightarrow> string) \<Rightarrow> string option \<Rightarrow> xml list \<Rightarrow> TreeTypeStage list \<Rightarrow> int
     \<Rightarrow> TreeTypeStage list" where
  "parse_stages pjoin bd [] stgs idx = stgs"
| "parse_stages pjoin bd (stage_elem # rest) stgs idx =
     (let vs = stage_variations pjoin bd stage_elem in
      if vs \<noteq> [] then
        parse_stages pjoin bd rest (stgs @ [\<lparr>stage_index = idx, variations = vs\<rparr>]) (idx + 1)
      else parse_stages pjoin bd rest stgs idx)"

text \<open>
  The loop over the \<open>treeType\<close> elements, with the catalog and \<open>count\<close>: an entry without a
  name or without stages is skipped; any other is stored under its uppercased name.
\<close>

fun load_types ::
  "(string \<Rightarrow> string \<Rightarrow> string) \<Rightarrow> string option \<Rightarrow> xml list \<Rightarrow> TreeTypeLoader \<Rightarrow> int
     \<Rightarrow> TreeTypeLoader \<times> int" where
  "load_types pjoin bd [] tree_types count = (tree_types, count)"
| "load_types pjoin bd (tree_type_elem # rest) tree_types count =
     (let name = get_default tree_type_elem ''name'' [] in
      if name = [] then load_types pjoin bd rest tree_types count
      else
        let split_type = get_default tree_type_elem ''splitType'' (upper name);
            title = get_default tree_type_elem ''title'' name;
            stgs = parse_stages pjoin bd (findall tree_type_elem ''stage'') [] 1
        in if stgs \<noteq> [] then
             load_types pjoin bd rest
               (tree_types(upper name \<mapsto>
                  \<lparr>desc_name = name, split_type = split_type, title = title, stages = stgs\<rparr>))
               (count + 1)
           else load_types pjoin bd rest tree_types count)"

text \<open>
  \<open>TreeTypeLoader.load_from_xml\<close>: the catalog after the call and the count returned.
\<close>

definition load_from_xml ::
  "(string \<Rightarrow> string \<Rightarrow> string) \<Rightarrow> files \<Rightarrow> string \<Rightarrow> string option \<Rightarrow> TreeTypeLoader
     \<Rightarrow> TreeTypeLoader \<times> int" where
  "load_from_xml pjoin fs xml_path base_directory tree_types =
     (case fs xml_path of
        Missing \<Rightarrow> (tree_types, 0)
      | Malformed \<Rightarrow> (tree_types, 0)
      | Document root_elem \<Rightarrow>
          (let tree_types_elem =
                 (case find_descendant root_elem ''treeTypes'' of Some e \<Rightarrow> e | None \<Rightarrow> root_elem)
           in load_types pjoin base_directory (findall tree_types_elem ''treeType'') tree_types 0))"

text \<open>
  \<open>TreeTypeLoader.load_from_map\<close>. \<open>parent\<close> is \<open>Path.parent\<close>. The base types are loaded
  first when a game data path is given and the file exists; then \<open>map.xml\<close> is parsed: a
  missing \<open>map.xml\<close> raises (the \<open>try\<close> catches \<open>ParseError\<close> only), a malformed one is
  reported and skipped. The result is the catalog after the call and the total, or the
  exception.
\<close>

definition load_from_map ::
  "(string \<Rightarrow> string \<Rightarrow> string) \<Rightarrow> (string \<Rightarrow> string) \<Rightarrow> files \<Rightarrow> string \<Rightarrow> string option
     \<Rightarrow> TreeTypeLoader \<Rightarrow> TreeTypeLoader \<times> (error + int)" where
  "load_from_map pjoin parent fs map_xml_path game_data_path tree_types =
     (let map_dir = parent map_xml_path;
          (tree_types1, total1) =
            (case game_data_path of
               None \<Rightarrow> (tree_types, 0)
             | Some gd \<Rightarrow>
                 (let base_types_path = pjoin (pjoin gd ''maps'') ''maps_treeTypes.xml'' in
                  if fs base_types_path \<noteq> Missing
                  then load_from_xml pjoin fs base_types_path (Some gd) tree_types
                  else (tree_types, 0)))
      in case fs map_xml_path of
           Missing \<Rightarrow> (tree_types1, Inl FileNotFoundError)
         | Malformed \<Rightarrow> (tree_types1, Inr total1)
         | Document root_elem \<Rightarrow>
             (case find_descendant root_elem ''treeTypes'' of
                None \<Rightarrow> (tree_types1, Inr total1)
              | Some tree_types_elem \<Rightarrow>
                  (let filename = get_default tree_types_elem ''filename'' [] in
                   if filename = [] then (tree_types1, Inr total1)
                   else
                     let possible_paths =
                           [pjoin map_dir filename] @
                           (if startswith filename ''map/'' then [pjoin map_dir (drop 4 filename)]
                            else [])
                     in case find (\<lambda>p. fs p \<noteq> Missing) possible_paths of
                          Some map_tree_types_path \<Rightarrow>
                            (let (tree_types2, loaded) =
                                   load_from_xml pjoin fs map_tree_types_path (Some map_dir) tree_types1
                             in (tree_types2, Inr (total1 + loaded)))
                        | None \<Rightarrow> (tree_types1, Inr total1))))"

definition get_type :: "TreeTypeLoader \<Rightarrow> string \<Rightarrow> TreeTypeDesc option" where
  "get_type tree_types name = tree_types (upper name)"

definition MAX_STAGES :: "(string \<times> int) list" where
  "MAX_STAGES =
     [(''AMERICANELM'', 5), (''ASPEN'', 6), (''BEECH'', 6), (''BETULAERMANII'', 4),
      (''BIRCH'', 5), (''BOXELDER'', 3), (''CHERRY'', 4), (''CHINESEELM'', 4),
      (''DOWNYSERVICEBERRY'', 3), (''GOLDENRAIN'', 4), (''JAPANESEZELKOVA'', 4),
      (''LODGEPOLEPINE'', 3), (''MAPLE'', 5), (''NORTHERNCATALPA'', 4), (''OAK'', 5),
      (''PINUSSYLVESTRIS'', 5), (''PINUSTABULIFORMIS'', 5), (''POPLAR'', 5),
      (''SHAGBARKHICKORY'', 4), (''SPRUCE'', 5), (''TILIAAMURENSIS'', 4), (''WILLOW'', 5)]"

text \<open>\<open>MAX_STAGES.get(name.upper(), 5)\<close>.\<close>

definition max_stages_get :: "string \<Rightarrow> int" where
  "max_stages_get name = (case map_of MAX_STAGES (upper name) of Some n \<Rightarrow> n | None \<Rightarrow> 5)"

definition get_max_stage :: "TreeTypeLoader \<Rightarrow> string \<Rightarrow> int" where
  "get_max_stage tree_types name =
     (case get_type tree_types name of
        Some tree_type \<Rightarrow> max_stage tree_type
      | None \<Rightarrow> max_stages_get name)"

text \<open>
  The load operations of a loader, and a run of them on one loader, each on the disk as it
  is at that moment. The run keeps the loader's state, also through a call that raised.
\<close>

datatype load_op =
  LoadXml files string "string option"
| LoadMap files string "string option"

fun load_op_run ::
  "(string \<Rightarrow> string \<Rightarrow> string) \<Rightarrow> (string \<Rightarrow> string) \<Rightarrow> load_op \<Rightarrow> TreeTypeLoader
     \<Rightarrow> TreeTypeLoader" where
  "load_op_run pjoin parent (LoadXml fs xml_path bd) tree_types =
     fst (load_from_xml pjoin fs xml_path bd tree_types)"
| "load_op_run pjoin parent (LoadMap fs map_xml_path gd) tree_types =
     fst (load_from_map pjoin parent fs map_xml_path gd tree_types)"

fun load_sequence ::
  "(string \<Rightarrow> string \<Rightarrow> string) \<Rightarrow> (string \<Rightarrow> string) \<Rightarrow> load_op list \<Rightarrow> TreeTypeLoader
     \<Rightarrow> TreeTypeLoader" where
  "load_sequence pjoin parent [] tree_types = tree_types"
| "load_sequence pjoin parent (op # rest) tree_types =
     load_sequence pjoin parent rest (load_op_run pjoin parent op tree_types)"

section \<open>The fallback classifier\<close>

text \<open>\<open>sub in s\<close>: \<open>sub\<close> occurs in \<open>s\<close>.\<close>

fun contains :: "string \<Rightarrow> string \<Rightarrow> bool" where
  "contains [] sub = (sub = [])"
| "contains (c # cs) sub = (startswith (c # cs) sub \<or> contains cs sub)"

text \<open>
  The regular expressions of \<open>TREE_PATTERNS\<close> are alternatives \<open>a|b|c\<close>, each a literal
  followed by negative lookaheads \<open>(?!.*x)\<close>. A lookahead \<open>(?!.*x)\<close> fails when \<open>x\<close> occurs
  in what follows on the same line (\<open>.\<close> does not match a newline).
\<close>

datatype alternative = Alt string "string list"

type_synonym pattern = "alternative list"

definition alt_matches_at :: "alternative \<Rightarrow> string \<Rightarrow> bool" where
  "alt_matches_at a s =
     (case a of Alt lit lookaheads \<Rightarrow>
        startswith s lit \<and>
        list_all (\<lambda>x. \<not> contains (takeWhile (\<lambda>c. c \<noteq> CHR 0x0A) (drop (length lit) s)) x)
          lookaheads)"

text \<open>\<open>re.search(pattern, s)\<close> as a truth value: some alternative matches at some position.\<close>

fun re_search :: "pattern \<Rightarrow> string \<Rightarrow> bool" where
  "re_search p [] = list_ex (\<lambda>a. alt_matches_at a []) p"
| "re_search p (c # cs) = (list_ex (\<lambda>a. alt_matches_at a (c # cs)) p \<or> re_search p cs)"

text \<open>The dictionary \<open>TREE_PATTERNS\<close>, in its insertion order (the order of iteration).\<close>

definition TREE_PATTERNS :: "(pattern \<times> string \<times> int) list" where
  "TREE_PATTERNS =
     [([Alt ''americanelm'' []], ''americanElm'', 5),
      ([Alt ''aspen'' []], ''aspen'', 6),
      ([Alt ''beech'' []], ''beech'', 6),
      ([Alt ''betulaermanii'' [], Alt ''ermanii'' []], ''betulaErmanii'', 4),
      ([Alt ''birch'' [''ermanii'']], ''birch'', 5),
      ([Alt ''boxelder'' []], ''boxelder'', 3),
      ([Alt ''cherry'' []], ''cherry'', 4),
      ([Alt ''chineseelm'' []], ''chineseElm'', 4),
      ([Alt ''downyserviceberry'' [], Alt ''serviceberry'' []], ''downyServiceBerry'', 3),
      ([Alt ''goldenrain'' []], ''goldenRain'', 4),
      ([Alt ''japanesezelkova'' [], Alt ''zelkova'' []], ''japaneseZelkova'', 4),
      ([Alt ''lodgepolepine'' []], ''lodgepolePine'', 3),
      ([Alt ''maple'' []], ''maple'', 5),
      ([Alt ''northerncatalpa'' [], Alt ''catalpa'' []], ''northernCatalpa'', 4),
      ([Alt ''oak'' []], ''oak'', 5),
      ([Alt ''pinussylvestris'' [], Alt ''scotspine'' [], Alt ''scots_pine'' []],
         ''pinusSylvestris'', 5),
      ([Alt ''pinustabuliformis'' [], Alt ''chinesepine'' []], ''pinusTabuliformis'', 5),
      ([Alt ''poplar'' []], ''poplar'', 5),
      ([Alt ''shagbarkhickory'' [], Alt ''hickory'' []], ''shagbarkHickory'', 4),
      ([Alt ''spruce'' []], ''spruce'', 5),
      ([Alt ''tiliaamurensis'' [], Alt ''linden'' [''station''], Alt ''limetree'' []],
         ''tiliaAmurensis'', 4),
      ([Alt ''willow'' []], ''willow'', 5),
      ([Alt ''pine'' [''sylvestris'', ''tabuliformis'']], ''lodgepolePine'', 3)]"

text \<open>\<open>name.lower().replace('_', '').replace('-', '').replace(' ', '')\<close>.\<close>

definition name_lower :: "string \<Rightarrow> string" where
  "name_lower name =
     filter (\<lambda>c. c \<noteq> CHR '' '')
       (filter (\<lambda>c. c \<noteq> CHR ''-'') (filter (\<lambda>c. c \<noteq> CHR ''_'') (lower name)))"

text \<open>The loop of \<open>detect_tree_type\<close> over the patterns: it returns at the first match.\<close>

fun detect_in :: "(pattern \<times> string \<times> int) list \<Rightarrow> string \<Rightarrow> (string \<times> int) option" where
  "detect_in [] s = None"
| "detect_in ((pat, tree_type, stgs) # rest) s =
     (if re_search pat s then Some (tree_type, stgs) else detect_in rest s)"

definition detect_tree_type :: "string \<Rightarrow> (string \<times> int) option" where
  "detect_tree_type name = detect_in TREE_PATTERNS (name_lower name)"

section \<open>Numbers in names\<close>

definition is_digit :: "char \<Rightarrow> bool" where
  "is_digit c = (c \<in> set ''0123456789'')"

definition digit_value :: "char \<Rightarrow> int" where
  "digit_value c = (case map_of (zip ''0123456789'' [0, 1, 2, 3, 4, 5, 6, 7, 8, 9]) c of
                      Some v \<Rightarrow> v | None \<Rightarrow> 0)"

text \<open>\<open>int(digits)\<close> for a run of decimal digits.\<close>

definition int_of_digits :: "string \<Rightarrow> int" where
  "int_of_digits ds = foldl (\<lambda>acc c. 10 * acc + digit_value c) 0 ds"

text \<open>
  A match of \<open>key[_]?(\d+)\<close> at the start of \<open>s\<close>, as the number of group 1: the key, then an
  optional underscore, then the longest run of digits, which must not be empty.
\<close>

definition match_number_at :: "string \<Rightarrow> string \<Rightarrow> int option" where
  "match_number_at key s =
     (if startswith s key then
        (let rest = drop (length key) s;
             rest' = (if startswith rest ''_'' then drop 1 rest else rest);
             ds = takeWhile is_digit rest'
         in if ds = [] then None else Some (int_of_digits ds))
      else None)"

text \<open>\<open>re.search(key + r'[_]?(\d+)', s)\<close>: the leftmost match, or \<open>None\<close>.\<close>

fun search_number :: "string \<Rightarrow> string \<Rightarrow> int option" where
  "search_number key [] = match_number_at key []"
| "search_number key (c # cs) =
     (case match_number_at key (c # cs) of
        Some n \<Rightarrow> Some n
      | None \<Rightarrow> search_number key cs)"

section \<open>Vectors\<close>

text \<open>
  \<open>str.split()\<close>: the maximal runs of characters that are not whitespace. \<open>cur\<close> is the
  run being read.
\<close>

definition is_space :: "char \<Rightarrow> bool" where
  "is_space c = (c \<in> set [CHR '' '', CHR 0x09, CHR 0x0A, CHR 0x0B, CHR 0x0C, CHR 0x0D,
                            CHR 0x1C, CHR 0x1D, CHR 0x1E, CHR 0x1F])"

fun split_from :: "string \<Rightarrow> string \<Rightarrow> string list" where
  "split_from [] cur = (if cur = [] then [] else [cur])"
| "split_from (c # cs) cur =
     (if is_space c then (if cur = [] then split_from cs [] else cur # split_from cs [])
      else split_from cs (cur @ [c]))"

definition split :: "string \<Rightarrow> string list" where
  "split s = split_from s []"

text \<open>
  \<open>parse_vector\<close>. Floats are modelled as real numbers (no rounding). The builtin
  \<open>float\<close> is the parameter \<open>pfloat\<close>, \<open>None\<close> where it raises \<open>ValueError\<close>; \<open>value\<close> is
  \<open>None\<close> when the attribute is absent. The tuple returned has as many components as the
  string has fields.
\<close>

definition parse_vector :: "(string \<Rightarrow> real option) \<Rightarrow> string option \<Rightarrow> real list \<Rightarrow> real list" where
  "parse_vector pfloat value dflt =
     (case value of
        None \<Rightarrow> dflt
      | Some v \<Rightarrow>
          if v = [] then dflt
          else if list_all (\<lambda>f. pfloat f \<noteq> None) (split v)
               then map (\<lambda>f. the (pfloat f)) (split v)
               else dflt)"

text \<open>
  Reading \<open>v[0]\<close>, \<open>v[1]\<close> and \<open>v[2]\<close> of a tuple: \<open>IndexError\<close> when it has fewer than three
  components.
\<close>

definition vec3 :: "real list \<Rightarrow> error + (real \<times> real \<times> real)" where
  "vec3 v = (if 3 \<le> length v then Inr (v ! 0, v ! 1, v ! 2) else Inl IndexError)"

section \<open>The transform engine\<close>

text \<open>
  A matrix is a list of rows. \<open>multiply_matrices\<close> reads the entries with indices 0 to 3
  of both arguments, so it raises \<open>IndexError\<close> unless both have them; each entry of the
  result is accumulated from \<open>0.0\<close> in the order of \<open>k\<close>.
\<close>

definition has_4x4 :: "'a list list \<Rightarrow> bool" where
  "has_4x4 m = (4 \<le> length m \<and> list_all (\<lambda>row. 4 \<le> length row) (take 4 m))"

definition entry :: "'a::{zero,plus,times} list list \<Rightarrow> 'a list list \<Rightarrow> nat \<Rightarrow> nat \<Rightarrow> 'a" where
  "entry m1 m2 i j = foldl (\<lambda>acc k. acc + m1 ! i ! k * m2 ! k ! j) 0 [0, 1, 2, 3]"

definition multiply_matrices ::
  "'a::{zero,plus,times} list list \<Rightarrow> 'a list list \<Rightarrow> error + 'a list list" where
  "multiply_matrices m1 m2 =
     (if has_4x4 m1 \<and> has_4x4 m2
      then Inr (map (\<lambda>i. map (\<lambda>j. entry m1 m2 i j) [0, 1, 2, 3]) [0, 1, 2, 3])
      else Inl IndexError)"

definition radians :: "real \<Rightarrow> real" where
  "radians d = d * pi / 180"

definition degrees :: "real \<Rightarrow> real" where
  "degrees r = r * 180 / pi"

definition rotation_matrix :: "real \<Rightarrow> real \<Rightarrow> real \<Rightarrow> real list list" where
  "rotation_matrix rx ry rz =
     (let cx = cos (radians rx); sx = sin (radians rx);
          cy = cos (radians ry); sy = sin (radians ry);
          cz = cos (radians rz); sz = sin (radians rz)
      in [[cy * cz, - cy * sz, sy, 0],
          [sx * sy * cz + cx * sz, - sx * sy * sz + cx * cz, - sx * cy, 0],
          [- cx * sy * cz + sx * sz, cx * sy * sz + sx * cz, cx * cy, 0],
          [0, 0, 0, 1]])"

definition transform_matrix ::
  "real \<Rightarrow> real \<Rightarrow> real \<Rightarrow> real \<Rightarrow> real \<Rightarrow> real \<Rightarrow> real \<Rightarrow> real \<Rightarrow> real \<Rightarrow> real list list" where
  "transform_matrix tx ty tz rx ry rz sx sy sz =
     (let rot = rotation_matrix rx ry rz;
          rot = rot[0 := map (\<lambda>j. rot ! 0 ! j * sx) [0, 1, 2, 3]];
          rot = rot[1 := map (\<lambda>j. rot ! 1 ! j * sy) [0, 1, 2, 3]];
          rot = rot[2 := map (\<lambda>j. rot ! 2 ! j * sz) [0, 1, 2, 3]];
          rot = rot[0 := (rot ! 0)[3 := tx]];
          rot = rot[1 := (rot ! 1)[3 := ty]];
          rot = rot[2 := (rot ! 2)[3 := tz]]
      in rot)"

text \<open>
  \<open>math.atan2(y, x)\<close> on real numbers: the angle of the point \<open>(x, y)\<close> in \<open>(-pi, pi]\<close>,
  and 0 at the origin.
\<close>

definition atan2 :: "real \<Rightarrow> real \<Rightarrow> real" where
  "atan2 y x =
     (if 0 < x then arctan (y / x)
      else if x < 0 then (if 0 \<le> y then arctan (y / x) + pi else arctan (y / x) - pi)
      else if 0 < y then pi / 2
      else if y < 0 then - pi / 2
      else 0)"

text \<open>
  \<open>extract_world_transform\<close>: it reads column 3 of rows 0 to 2 first, so it raises
  \<open>IndexError\<close> unless the matrix has three rows of four entries; every later read is
  among these.
\<close>

definition extract_world_transform ::
  "real list list \<Rightarrow> error + ((real \<times> real \<times> real) \<times> (real \<times> real \<times> real))" where
  "extract_world_transform matrix =
     (if 3 \<le> length matrix \<and> list_all (\<lambda>row. 4 \<le> length row) (take 3 matrix) then
        (let x = matrix ! 0 ! 3; y = matrix ! 1 ! 3; z = matrix ! 2 ! 3;
             sy = matrix ! 0 ! 2;
             ry = arcsin (max (- 1) (min 1 sy));
             (rx, rz) =
               (if \<bar>cos ry\<bar> > 0.001
                then (atan2 (- (matrix ! 1 ! 2)) (matrix ! 2 ! 2),
                      atan2 (- (matrix ! 0 ! 1)) (matrix ! 0 ! 0))
                else (atan2 (matrix ! 2 ! 1) (matrix ! 1 ! 1), 0))
         in Inr ((x, y, z), (degrees rx, degrees ry, degrees rz)))
      else Inl IndexError)"




section \<open>The scene walker\<close>

text \<open>
  A \<open>TreeInstance\<close>. The fields \<open>x, y, z\<close>, \<open>rx, ry, rz\<close> and \<open>sx, sy, sz\<close> are the three
  triples. \<open>element\<close> and \<open>parent\<close> are references to elements of the document: an element
  is identified by its position, the list of child indices that leads to it from the
  \<open>Scene\<close> element.
\<close>

record TreeInstance =
  node_name :: string
  tree_type :: string
  position :: "real \<times> real \<times> real"
  rotation :: "real \<times> real \<times> real"
  scale :: "real \<times> real \<times> real"
  growth_state :: int
  variation_index :: int
  element :: "nat list option"
  parent_element :: "nat list option"

text \<open>\<open>file_id_to_tree_type\<close>: the key is the \<open>fileId\<close> attribute, \<open>None\<close> when absent.\<close>

type_synonym registry = "string option \<rightharpoonup> (string \<times> int \<times> int)"

text \<open>
  \<open>s.replace(old, '')\<close> for a non-empty \<open>old\<close>: the occurrences are removed from left to
  right; \<open>n\<close> counts the characters of an occurrence still to skip.
\<close>

fun remove_from :: "string \<Rightarrow> nat \<Rightarrow> string \<Rightarrow> string" where
  "remove_from old n [] = []"
| "remove_from old n (c # cs) =
     (if 0 < n then remove_from old (n - 1) cs
      else if startswith (c # cs) old then remove_from old (length old - 1) cs
      else c # remove_from old 0 cs)"

text \<open>The tag without the namespace: \<open>tag.replace('{uri}', '')\<close> when a namespace is set.\<close>

definition local_tag :: "string option \<Rightarrow> string \<Rightarrow> string" where
  "local_tag ns t =
     (case ns of None \<Rightarrow> t | Some uri \<Rightarrow> remove_from (''{'' @ uri @ ''}'') 0 t)"

text \<open>
  The name test of \<open>scan_node\<close>: a filter is given, it is not empty, and the names are
  equal after \<open>lower()\<close>.
\<close>

definition is_tree_parent :: "string option \<Rightarrow> string \<Rightarrow> bool" where
  "is_tree_parent parent_name name =
     (case parent_name of None \<Rightarrow> False | Some pn \<Rightarrow> pn \<noteq> [] \<and> lower name = lower pn)"

text \<open>\<open>not parent_name or in_tree_parent\<close>.\<close>

definition collecting :: "string option \<Rightarrow> bool \<Rightarrow> bool" where
  "collecting parent_name in_tree_parent =
     (parent_name = None \<or> parent_name = Some [] \<or> in_tree_parent)"

text \<open>
  The local and world matrix of a node: the three vectors are parsed, their components
  0 to 2 are read, and the local matrix is multiplied to the parent's. The result is the
  world matrix and the scale triple.
\<close>

definition node_matrices ::
  "(string \<Rightarrow> real option) \<Rightarrow> xml \<Rightarrow> real list list
     \<Rightarrow> error + (real list list \<times> (real \<times> real \<times> real))" where
  "node_matrices pfloat elem parent_matrix =
     (let trans = parse_vector pfloat (get elem ''translation'') [0, 0, 0];
          rot = parse_vector pfloat (get elem ''rotation'') [0, 0, 0];
          scl = parse_vector pfloat (get elem ''scale'') [1, 1, 1]
      in case vec3 trans of Inl e \<Rightarrow> Inl e | Inr (t0, t1, t2) \<Rightarrow>
         (case vec3 rot of Inl e \<Rightarrow> Inl e | Inr (r0, r1, r2) \<Rightarrow>
         (case vec3 scl of Inl e \<Rightarrow> Inl e | Inr (s0, s1, s2) \<Rightarrow>
         (case multiply_matrices parent_matrix (transform_matrix t0 t1 t2 r0 r1 r2 s0 s1 s2) of
            Inl e \<Rightarrow> Inl e
          | Inr world_matrix \<Rightarrow> Inr (world_matrix, (s0, s1, s2))))))"

text \<open>
  The instances a node itself yields, none or one: the \<open>ReferenceNode\<close> branch with the
  registry, or the legacy branch for \<open>TransformGroup\<close> and \<open>Shape\<close> with the classifier.
\<close>

definition node_instances ::
  "string option \<Rightarrow> string option \<Rightarrow> registry \<Rightarrow> xml \<Rightarrow> nat list \<Rightarrow> nat list \<Rightarrow> real list list
     \<Rightarrow> real \<times> real \<times> real \<Rightarrow> bool \<Rightarrow> error + TreeInstance list" where
  "node_instances ns parent_name reg elem path parent_path world_matrix scl in_tree_parent =
     (let t = local_tag ns (tag elem); name = get_default elem ''name'' [] in
      if t = ''ReferenceNode'' then
        (case get elem ''referenceId'' of
           None \<Rightarrow> Inr []
         | Some ref_id \<Rightarrow>
             if ref_id = [] then Inr []
             else (case reg (Some ref_id) of
                     None \<Rightarrow> Inr []
                   | Some (ty, stage, variation) \<Rightarrow>
                       if collecting parent_name in_tree_parent then
                         (case extract_world_transform world_matrix of
                            Inl e \<Rightarrow> Inl e
                          | Inr (world_pos, world_rot) \<Rightarrow>
                              Inr [\<lparr>node_name = name, tree_type = ty, position = world_pos,
                                    rotation = world_rot, scale = scl, growth_state = stage,
                                    variation_index = variation, element = Some path,
                                    parent_element = Some parent_path\<rparr>])
                       else Inr []))
      else if t = ''TransformGroup'' \<or> t = ''Shape'' then
        (case detect_tree_type name of
           None \<Rightarrow> Inr []
         | Some (ty, max_stg) \<Rightarrow>
             if collecting parent_name in_tree_parent then
               (case extract_world_transform world_matrix of
                  Inl e \<Rightarrow> Inl e
                | Inr (world_pos, world_rot) \<Rightarrow>
                    Inr [\<lparr>node_name = name, tree_type = ty, position = world_pos,
                          rotation = world_rot, scale = scl,
                          growth_state =
                            (case search_number ''stage'' (lower name) of
                               Some n \<Rightarrow> n | None \<Rightarrow> max_stg),
                          variation_index =
                            (case search_number ''var'' (lower name) of
                               Some n \<Rightarrow> n | None \<Rightarrow> 1),
                          element = Some path, parent_element = Some parent_path\<rparr>])
             else Inr [])
      else Inr [])"

text \<open>The children that \<open>scan_node\<close> descends into.\<close>

definition scanned_tag :: "string option \<Rightarrow> xml \<Rightarrow> bool" where
  "scanned_tag ns child =
     (local_tag ns (tag child) = ''TransformGroup'' \<or> local_tag ns (tag child) = ''Shape'' \<or>
      local_tag ns (tag child) = ''ReferenceNode'')"

text \<open>
  What \<open>scan_node\<close> does at a node before it descends, with the state it updates
  (\<open>self.trees\<close> and \<open>self.tree_parents\<close>): the name test, the matrices and the instance of
  the node. The result is the world matrix and the flag passed to the children, and the
  new state.
\<close>

definition node_step ::
  "(string \<Rightarrow> real option) \<Rightarrow> string option \<Rightarrow> string option \<Rightarrow> registry \<Rightarrow> xml \<Rightarrow> nat list
     \<Rightarrow> nat list \<Rightarrow> real list list \<Rightarrow> bool \<Rightarrow> TreeInstance list \<times> nat list list
     \<Rightarrow> error + (real list list \<times> bool \<times> TreeInstance list \<times> nat list list)" where
  "node_step pfloat ns parent_name reg elem path parent_path parent_matrix in_tree_parent st =
     (let name = get_default elem ''name'' [];
          hit = is_tree_parent parent_name name;
          in_tree_parent = (in_tree_parent \<or> hit);
          tree_parents =
            (if hit \<and> path \<notin> set (snd st) then snd st @ [path] else snd st)
      in case node_matrices pfloat elem parent_matrix of
           Inl e \<Rightarrow> Inl e
         | Inr (world_matrix, scl) \<Rightarrow>
             (case node_instances ns parent_name reg elem path parent_path world_matrix scl
                     in_tree_parent of
                Inl e \<Rightarrow> Inl e
              | Inr new \<Rightarrow> Inr (world_matrix, in_tree_parent, fst st @ new, tree_parents)))"

text \<open>
  \<open>scan_node\<close> and its loop over the children, \<open>scan_children\<close>, where \<open>i\<close> is the index of
  the next child.
\<close>

fun scan_node ::
  "(string \<Rightarrow> real option) \<Rightarrow> string option \<Rightarrow> string option \<Rightarrow> registry \<Rightarrow> xml \<Rightarrow> nat list
     \<Rightarrow> nat list \<Rightarrow> real list list \<Rightarrow> bool \<Rightarrow> TreeInstance list \<times> nat list list
     \<Rightarrow> error + TreeInstance list \<times> nat list list"
and scan_children ::
  "(string \<Rightarrow> real option) \<Rightarrow> string option \<Rightarrow> string option \<Rightarrow> registry \<Rightarrow> xml list \<Rightarrow> nat list
     \<Rightarrow> nat \<Rightarrow> real list list \<Rightarrow> bool \<Rightarrow> TreeInstance list \<times> nat list list
     \<Rightarrow> error + TreeInstance list \<times> nat list list" where
  "scan_node pfloat ns parent_name reg (Element tg attrs cs) path parent_path parent_matrix
       in_tree_parent st =
     (case node_step pfloat ns parent_name reg (Element tg attrs cs) path parent_path
             parent_matrix in_tree_parent st of
        Inl e \<Rightarrow> Inl e
      | Inr (world_matrix, in_tree_parent', st') \<Rightarrow>
          scan_children pfloat ns parent_name reg cs path 0 world_matrix in_tree_parent' st')"
| "scan_children pfloat ns parent_name reg [] path i world_matrix in_tree_parent st = Inr st"
| "scan_children pfloat ns parent_name reg (child # rest) path i world_matrix in_tree_parent st =
     (if scanned_tag ns child then
        (case scan_node pfloat ns parent_name reg child (path @ [i]) path world_matrix
                in_tree_parent st of
           Inl e \<Rightarrow> Inl e
         | Inr st' \<Rightarrow>
             scan_children pfloat ns parent_name reg rest path (Suc i) world_matrix
               in_tree_parent st')
      else scan_children pfloat ns parent_name reg rest path (Suc i) world_matrix
             in_tree_parent st)"

text \<open>
  The loop of \<open>find_trees\<close> over the children of the \<open>Scene\<close> element: every child is
  scanned, whatever its tag, from the identity matrix.
\<close>

definition identity :: "real list list" where
  "identity = [[1, 0, 0, 0], [0, 1, 0, 0], [0, 0, 1, 0], [0, 0, 0, 1]]"

fun scan_scene ::
  "(string \<Rightarrow> real option) \<Rightarrow> string option \<Rightarrow> string option \<Rightarrow> registry \<Rightarrow> xml list \<Rightarrow> nat
     \<Rightarrow> TreeInstance list \<times> nat list list \<Rightarrow> error + TreeInstance list \<times> nat list list" where
  "scan_scene pfloat ns parent_name reg [] i st = Inr st"
| "scan_scene pfloat ns parent_name reg (child # rest) i st =
     (case scan_node pfloat ns parent_name reg child [i] [] identity (parent_name = None) st of
        Inl e \<Rightarrow> Inl e
      | Inr st' \<Rightarrow> scan_scene pfloat ns parent_name reg rest (Suc i) st')"

section \<open>The file registry\<close>

text \<open>\<open>s.endswith(suffix)\<close>.\<close>

definition endswith :: "string \<Rightarrow> string \<Rightarrow> bool" where
  "endswith s suffix =
     (length suffix \<le> length s \<and> drop (length s - length suffix) s = suffix)"

text \<open>
  \<open>TreeTypeDesc.find_stage_by_filename\<close>: the two loops, which return at the first
  variation that matches. \<open>stem\<close> is \<open>Path(...).stem\<close> of \<open>pathlib\<close>, a parameter;
  \<open>var_idx\<close> counts the variations of a stage from 1.
\<close>

fun find_in_variations ::
  "(string \<Rightarrow> string) \<Rightarrow> string \<Rightarrow> (string \<times> string) list list \<Rightarrow> int \<Rightarrow> int option" where
  "find_in_variations stem base_name [] var_idx = None"
| "find_in_variations stem base_name (variation # rest) var_idx =
     (let var_filename = (case map_of variation ''filename'' of Some f \<Rightarrow> f | None \<Rightarrow> []);
          var_base = lower (stem var_filename)
      in if var_base = base_name \<or> contains (lower var_filename) base_name then Some var_idx
         else find_in_variations stem base_name rest (var_idx + 1))"

fun find_in_stages ::
  "(string \<Rightarrow> string) \<Rightarrow> string \<Rightarrow> TreeTypeStage list \<Rightarrow> (int \<times> int) option" where
  "find_in_stages stem base_name [] = None"
| "find_in_stages stem base_name (stage # rest) =
     (case find_in_variations stem base_name (variations stage) 1 of
        Some var_idx \<Rightarrow> Some (stage_index stage, var_idx)
      | None \<Rightarrow> find_in_stages stem base_name rest)"

definition find_stage_by_filename ::
  "(string \<Rightarrow> string) \<Rightarrow> TreeTypeDesc \<Rightarrow> string \<Rightarrow> int \<times> int" where
  "find_stage_by_filename stem d filename =
     (case find_in_stages stem (lower (stem filename)) (stages d) of
        Some r \<Rightarrow> r
      | None \<Rightarrow> (max_stage d, 1))"

definition find_stage_and_variation ::
  "(string \<Rightarrow> string) \<Rightarrow> TreeTypeLoader \<Rightarrow> string \<Rightarrow> string \<Rightarrow> int \<times> int" where
  "find_stage_and_variation stem tree_types tree_type_name filename =
     (case get_type tree_types tree_type_name of
        Some desc \<Rightarrow> find_stage_by_filename stem desc filename
      | None \<Rightarrow>
          ((case search_number ''stage'' (lower filename) of
              Some n \<Rightarrow> n | None \<Rightarrow> get_max_stage tree_types tree_type_name),
           (case search_number ''var'' (lower filename) of Some n \<Rightarrow> n | None \<Rightarrow> 1)))"

text \<open>
  \<open>_build_file_id_map\<close>: the loop over all elements of the document; a \<open>File\<close> element of
  a tree asset whose base name the classifier knows is stored under its \<open>fileId\<close>.
\<close>

fun build_from ::
  "(string \<Rightarrow> string) \<Rightarrow> string option \<Rightarrow> TreeTypeLoader option \<Rightarrow> xml list \<Rightarrow> registry \<Rightarrow> registry" where
  "build_from stem ns tree_type_loader [] reg = reg"
| "build_from stem ns tree_type_loader (elem # rest) reg =
     (if local_tag ns (tag elem) = ''File'' then
        (let file_id = get elem ''fileId'';
             filename = get_default elem ''filename'' []
         in if contains filename ''/trees/'' \<and> endswith filename ''.i3d'' then
              (let basename = stem filename in
               case detect_tree_type basename of
                 None \<Rightarrow> build_from stem ns tree_type_loader rest reg
               | Some (ty, max_stg) \<Rightarrow>
                   (let (stage, variation) =
                          (case tree_type_loader of
                             Some loader \<Rightarrow> find_stage_and_variation stem loader ty basename
                           | None \<Rightarrow>
                               ((case search_number ''stage'' (lower basename) of
                                   Some n \<Rightarrow> n | None \<Rightarrow> max_stg),
                                (case search_number ''var'' (lower basename) of
                                   Some n \<Rightarrow> n | None \<Rightarrow> 1)))
                    in build_from stem ns tree_type_loader rest
                         (reg(file_id \<mapsto> (ty, stage, variation)))))
            else build_from stem ns tree_type_loader rest reg)
      else build_from stem ns tree_type_loader rest reg)"

definition build_file_id_map ::
  "(string \<Rightarrow> string) \<Rightarrow> string option \<Rightarrow> TreeTypeLoader option \<Rightarrow> xml \<Rightarrow> registry" where
  "build_file_id_map stem ns tree_type_loader root_elem =
     build_from stem ns tree_type_loader (iter root_elem) Map.empty"

text \<open>\<open>_find_element(tag)\<close>: the first descendant of the root with the qualified tag.\<close>

definition find_element :: "string option \<Rightarrow> xml \<Rightarrow> string \<Rightarrow> xml option" where
  "find_element ns root_elem t =
     (case ns of
        Some uri \<Rightarrow> find_descendant root_elem (''{'' @ uri @ ''}'' @ t)
      | None \<Rightarrow> find_descendant root_elem t)"

text \<open>
  \<open>find_trees\<close>. The fields \<open>root\<close>, \<open>ns\<close>, \<open>tree_type_loader\<close> and \<open>tree_parents\<close> of the
  extractor are arguments; the result is the new \<open>self.trees\<close>, which is returned, and
  the new \<open>self.tree_parents\<close>, or the exception raised.
\<close>

definition find_trees ::
  "(string \<Rightarrow> real option) \<Rightarrow> (string \<Rightarrow> string) \<Rightarrow> xml \<Rightarrow> string option \<Rightarrow> TreeTypeLoader option
     \<Rightarrow> string option \<Rightarrow> nat list list \<Rightarrow> error + TreeInstance list \<times> nat list list" where
  "find_trees pfloat stem root_elem ns tree_type_loader parent_name tree_parents =
     (let reg = build_file_id_map stem ns tree_type_loader root_elem in
      case find_element ns root_elem ''Scene'' of
        None \<Rightarrow> Inr ([], tree_parents)
      | Some scene \<Rightarrow>
          scan_scene pfloat ns parent_name reg (children scene) 0 ([], tree_parents))"

section \<open>The serializer\<close>

text \<open>\<open>str(n)\<close> for an integer.\<close>

function str_nat :: "nat \<Rightarrow> string" where
  "str_nat n =
     (if n < 10 then [''0123456789'' ! n]
      else str_nat (n div 10) @ [''0123456789'' ! (n mod 10)])"
  by pat_completeness auto
termination
  by (relation "measure id") auto

declare str_nat.simps [simp del]

definition str_int :: "int \<Rightarrow> string" where
  "str_int i = (if i < 0 then CHR ''-'' # str_nat (nat (- i)) else str_nat (nat i))"

text \<open>
  \<open>is_at_final_stage\<close>: the growth state against the max stage, which comes from the
  loader when there is one (\<open>loader\<close> is \<open>None\<close> when no tree types were loaded) and from
  \<open>MAX_STAGES\<close> otherwise.
\<close>

definition is_at_final_stage :: "TreeTypeLoader option \<Rightarrow> TreeInstance \<Rightarrow> bool" where
  "is_at_final_stage loader tree =
     (let max_stg = (case loader of
                       Some l \<Rightarrow> get_max_stage l (tree_type tree)
                     | None \<Rightarrow> max_stages_get (tree_type tree))
      in growth_state tree \<ge> max_stg)"

text \<open>
  The attributes of one \<open><tree/>\<close> record, name and value, in the order of \<open>attrs\<close>.
  \<open>fmt4\<close> is the float format \<open>.4f\<close>, a parameter.
\<close>

definition tree_attrs ::
  "(real \<Rightarrow> string) \<Rightarrow> TreeTypeLoader option \<Rightarrow> TreeInstance \<Rightarrow> (string \<times> string) list" where
  "tree_attrs fmt4 loader tree =
     (let pos = (case position tree of (x, y, z) \<Rightarrow> fmt4 x @ '' '' @ fmt4 y @ '' '' @ fmt4 z);
          rot = (case rotation tree of (rx, ry, rz) \<Rightarrow> fmt4 rx @ '' '' @ fmt4 ry @ '' '' @ fmt4 rz);
          attrs = [(''treeType'', upper (tree_type tree)), (''position'', pos),
                   (''rotation'', rot), (''growthStateI'', str_int (growth_state tree))];
          attrs = (if variation_index tree \<noteq> 1
                   then attrs @ [(''variationIndex'', str_int (variation_index tree))]
                   else attrs);
          attrs = (if is_at_final_stage loader tree then attrs @ [(''isGrowing'', ''false'')]
                   else attrs @ [(''isGrowing'', ''true'')])
      in attrs @ [(''splitShapeFileId'', ''-1'')])"

text \<open>One line of the file: \<open>    <tree k="v" ... />\<close>.\<close>

fun join :: "string \<Rightarrow> string list \<Rightarrow> string" where
  "join sep [] = []"
| "join sep [x] = x"
| "join sep (x # y # ys) = x @ sep @ join sep (y # ys)"

definition tree_line :: "(string \<times> string) list \<Rightarrow> string" where
  "tree_line attrs =
     ''    <tree '' @ join '' '' (map (\<lambda>(k, v). k @ [CHR ''='', CHR 0x22] @ v @ [CHR 0x22]) attrs)
       @ ''/>''"

text \<open>
  \<open>generate_treeplant_xml\<close>: the lines written to the file (joined with newlines there),
  and the two counts it prints.
\<close>

definition generate_treeplant_xml ::
  "(real \<Rightarrow> string) \<Rightarrow> TreeInstance list \<Rightarrow> TreeTypeLoader option \<Rightarrow> string list \<times> nat \<times> nat" where
  "generate_treeplant_xml fmt4 trees loader =
     ([[CHR ''<'', CHR ''?''] @ ''xml version='' @ [CHR 0x22] @ ''1.0'' @ [CHR 0x22] @
         '' encoding='' @ [CHR 0x22] @ ''utf-8'' @ [CHR 0x22] @ '' standalone='' @
         [CHR 0x22] @ ''no'' @ [CHR 0x22] @ [CHR ''?'', CHR ''>''],
       ''<treePlant>''] @
      map (\<lambda>tree. tree_line (tree_attrs fmt4 loader tree)) trees @
      [''</treePlant>''],
      length (filter (is_at_final_stage loader) trees),
      length (filter (\<lambda>tree. \<not> is_at_final_stage loader tree) trees))"

section \<open>Floats with rounding\<close>

text \<open>
  Python's \<open>float\<close> is IEEE 754 binary64, and \<open>+\<close> and \<open>*\<close> round the exact result to the
  nearest float, ties to the even significand. \<open>double\<close> models the finite floats of the
  normal range by the rational each stands for (no infinities, NaN, subnormals or
  overflow); \<open>round_double\<close> rounds a rational to 53 significant bits. On \<open>real\<close> the same
  functions of the transform engine compute without rounding.
\<close>

text \<open>The number of binary digits of a positive integer.\<close>

function bit_length :: "int \<Rightarrow> nat" where
  "bit_length n = (if n \<le> 0 then 0 else Suc (bit_length (n div 2)))"
  by pat_completeness auto
termination
  by (relation "measure nat") auto

declare bit_length.simps [simp del]

definition pow2 :: "int \<Rightarrow> rat" where
  "pow2 e = (if 0 \<le> e then 2 ^ nat e else 1 / 2 ^ nat (- e))"

definition exponent :: "rat \<Rightarrow> int" where
  "exponent x =
     (let (p, q) = quotient_of x;
          d = int (bit_length p) - int (bit_length q)
      in if pow2 d \<le> x then d else d - 1)"

definition round_half_even :: "rat \<Rightarrow> int" where
  "round_half_even q =
     (let n = \<lfloor>q\<rfloor>; r = q - of_int n
      in if r < 1 / 2 then n else if 1 / 2 < r then n + 1 else if even n then n else n + 1)"

definition round_double :: "rat \<Rightarrow> rat" where
  "round_double x =
     (if x = 0 then 0
      else let ulp = pow2 (exponent \<bar>x\<bar> - 52)
           in sgn x * of_int (round_half_even (\<bar>x\<bar> / ulp)) * ulp)"

datatype double = Double rat

instantiation double :: "{zero, plus, times}"
begin

definition zero_double_def: "0 = Double 0"

definition plus_double_def:
  "a + b = (case (a, b) of (Double x, Double y) \<Rightarrow> Double (round_double (x + y)))"

definition times_double_def:
  "a * b = (case (a, b) of (Double x, Double y) \<Rightarrow> Double (round_double (x * y)))"

instance ..

end










section \<open>Well-numbered stages\<close>

text \<open>Stage indices 1, 2, ... in order, and no stage without a variation.\<close>

definition stages_ok :: "TreeTypeStage list \<Rightarrow> bool" where
  "stages_ok stgs = (map stage_index stgs = map int [1..<Suc (length stgs)] \<and> list_all (\<lambda>s. variations s \<noteq> []) stgs)"

section \<open>Example descriptor sources\<close>

definition stage_file :: "string \<Rightarrow> xml" where
  "stage_file f = Element ''stage'' [(''filename'', f)] []"

definition oak3_xml :: xml where
  "oak3_xml = Element ''map'' []
     [Element ''treeTypes'' []
        [Element ''treeType'' [(''name'', ''oak'')]
           [stage_file ''a1.i3d'', stage_file ''a2.i3d'', stage_file ''a3.i3d'']]]"

definition oak5_xml :: xml where
  "oak5_xml = Element ''treeTypes'' []
     [Element ''treeType'' [(''name'', ''OAK''), (''title'', ''Oak'')]
        [stage_file ''b1.i3d'', stage_file ''b2.i3d'',
         Element ''stage'' [] [],
         Element ''stage'' [] [Element ''variation'' [(''filename'', ''$data/b3.i3d''), (''name'', ''v1'')] [],
                               Element ''variation'' [(''filename'', ''b3b.i3d'')] []],
         stage_file ''b4.i3d'', stage_file ''b5.i3d'']]"

definition example_files :: files where
  "example_files p =
     (if p = ''A.xml'' then Document oak3_xml
      else if p = ''B.xml'' then Document oak5_xml
      else if p = ''bad.xml'' then Malformed
      else Missing)"

definition example_join :: "string \<Rightarrow> string \<Rightarrow> string" where
  "example_join a b = a @ ''/'' @ b"

definition oak5_desc :: TreeTypeDesc where
  "oak5_desc = \<lparr>desc_name = ''OAK'', split_type = ''OAK'', title = ''Oak'',
     stages = [\<lparr>stage_index = 1, variations = [[(''filename'', ''b1.i3d'')]]\<rparr>,
               \<lparr>stage_index = 2, variations = [[(''filename'', ''b2.i3d'')]]\<rparr>,
               \<lparr>stage_index = 3, variations = [[(''filename'', ''base/b3.i3d''), (''name'', ''v1'')],
                                                  [(''filename'', ''b3b.i3d''), (''name'', [])]]\<rparr>,
               \<lparr>stage_index = 4, variations = [[(''filename'', ''b4.i3d'')]]\<rparr>,
               \<lparr>stage_index = 5, variations = [[(''filename'', ''b5.i3d'')]]\<rparr>]\<rparr>"

section \<open>Which nodes yield an instance\<close>

text \<open>
  The reference of a node resolves: it has a \<open>referenceId\<close> that is not empty and is a key
  of the registry.
\<close>

definition resolvable :: "registry \<Rightarrow> xml \<Rightarrow> bool" where
  "resolvable reg elem =
     (case get elem ''referenceId'' of
        None \<Rightarrow> False
      | Some ref_id \<Rightarrow> ref_id \<noteq> [] \<and> reg (Some ref_id) \<noteq> None)"

text \<open>
  The node is one that \<open>scan_node\<close> turns into an instance when it is collecting: a
  reference node that resolves, or a \<open>TransformGroup\<close> or \<open>Shape\<close> whose name the classifier
  knows.
\<close>

definition classified :: "string option \<Rightarrow> registry \<Rightarrow> xml \<Rightarrow> bool" where
  "classified ns reg elem =
     (local_tag ns (tag elem) = ''ReferenceNode'' \<and> resolvable reg elem \<or>
      (local_tag ns (tag elem) = ''TransformGroup'' \<or> local_tag ns (tag elem) = ''Shape'') \<and>
        detect_tree_type (get_default elem ''name'' []) \<noteq> None)"

text \<open>
  The name of the node passes the name test of the filter.
\<close>

definition named :: "string option \<Rightarrow> xml \<Rightarrow> bool" where
  "named parent_name elem = is_tree_parent parent_name (get_default elem ''name'' [])"

text \<open>
  The node at the path \<open>q\<close> below \<open>elem\<close> is reached by the traversal and yields an instance,
  when \<open>elem\<close> is scanned with the flag \<open>c\<close>.
\<close>

fun emits :: "string option \<Rightarrow> string option \<Rightarrow> registry \<Rightarrow> xml \<Rightarrow> nat list \<Rightarrow> bool \<Rightarrow> bool" where
  "emits ns parent_name reg elem [] c =
     (classified ns reg elem \<and> collecting parent_name (c \<or> named parent_name elem))"
| "emits ns parent_name reg elem (i # q) c =
     (i < length (children elem) \<and> scanned_tag ns (children elem ! i) \<and>
      emits ns parent_name reg (children elem ! i) q (c \<or> named parent_name elem))"

text \<open>
  The elements that the instances of a list refer to.
\<close>

definition emitted :: "TreeInstance list \<Rightarrow> nat list set" where
  "emitted ts = {p. \<exists>t\<in>set ts. element t = Some p}"

text \<open>
  The nodes met from \<open>elem\<close> down the path \<open>q\<close> of child indices, \<open>elem\<close> first.
\<close>

fun nodes_on_path :: "xml \<Rightarrow> nat list \<Rightarrow> xml list" where
  "nodes_on_path elem [] = [elem]"
| "nodes_on_path elem (i # q) =
     elem # (if i < length (children elem) then nodes_on_path (children elem ! i) q else [])"

text \<open>
  The path \<open>q\<close> below \<open>elem\<close> exists and every step goes to a child that \<open>scan_node\<close>
  descends into.
\<close>

fun reaches :: "string option \<Rightarrow> xml \<Rightarrow> nat list \<Rightarrow> bool" where
  "reaches ns elem [] = True"
| "reaches ns elem (i # q) =
     (i < length (children elem) \<and> scanned_tag ns (children elem ! i) \<and>
      reaches ns (children elem ! i) q)"

section \<open>Example scenes\<close>

text \<open>
  The builtin \<open>float\<close> on a string of decimal digits, for the examples; their other
  fields are no numbers at all.
\<close>

definition float_of_digits :: "string \<Rightarrow> real option" where
  "float_of_digits s =
     (if s \<noteq> [] \<and> list_all is_digit s then Some (of_int (int_of_digits s)) else None)"

text \<open>
  \<open>Path(s).stem\<close> for a path whose last component has one dot, for the examples.
\<close>

definition example_stem :: "string \<Rightarrow> string" where
  "example_stem s =
     (let name = rev (takeWhile (\<lambda>c. c \<noteq> CHR ''/'') (rev s))
      in rev (tl (dropWhile (\<lambda>c. c \<noteq> CHR ''.'') (rev name))))"

text \<open>
  A scene: a group named \<open>Trees\<close> that holds a reference to an oak, a reference to the
  same oak outside it, and a reference that does not resolve, named like an oak, with a
  resolving reference below it.
\<close>

definition example_i3d :: xml where
  "example_i3d =
     Element ''i3D'' []
       [Element ''Files'' []
          [Element ''File''
             [(''fileId'', ''1''), (''filename'', ''$data/maps/trees/oak/oak_stage05.i3d'')] []],
        Element ''Scene'' []
          [Element ''TransformGroup'' [(''name'', ''Trees''), (''translation'', ''5 0 0'')]
             [Element ''ReferenceNode''
                [(''name'', ''tree1''), (''referenceId'', ''1''), (''translation'', ''10 0 20'')] []],
           Element ''ReferenceNode'' [(''name'', ''tree2''), (''referenceId'', ''1'')] [],
           Element ''ReferenceNode'' [(''name'', ''oak_stage03''), (''referenceId'', ''7'')]
             [Element ''ReferenceNode'' [(''name'', ''tree3''), (''referenceId'', ''1'')] []]]]"

definition example_scene :: xml where
  "example_scene = children example_i3d ! 1"

definition example_registry :: registry where
  "example_registry = [Some ''1'' \<mapsto> (''oak'', 5, 1)]"

definition tree1 :: TreeInstance where
  "tree1 = \<lparr>node_name = ''tree1'', tree_type = ''oak'', position = (15, 0, 20),
     rotation = (0, 0, 0), scale = (1, 1, 1), growth_state = 5, variation_index = 1,
     element = Some [0, 0], parent_element = Some [0]\<rparr>"

definition tree2 :: TreeInstance where
  "tree2 = \<lparr>node_name = ''tree2'', tree_type = ''oak'', position = (0, 0, 0),
     rotation = (0, 0, 0), scale = (1, 1, 1), growth_state = 5, variation_index = 1,
     element = Some [1], parent_element = Some []\<rparr>"

definition tree3 :: TreeInstance where
  "tree3 = \<lparr>node_name = ''tree3'', tree_type = ''oak'', position = (0, 0, 0),
     rotation = (0, 0, 0), scale = (1, 1, 1), growth_state = 5, variation_index = 1,
     element = Some [2, 0], parent_element = Some [2]\<rparr>"

text \<open>
  A scene with one node whose translation has two components.
\<close>

definition short_vector_i3d :: xml where
  "short_vector_i3d =
     Element ''i3D'' []
       [Element ''Scene'' []
          [Element ''TransformGroup'' [(''name'', ''group''), (''translation'', ''1 2'')] []]]"

text \<open>
  The format \<open>.4f\<close> on whole numbers, for the examples.
\<close>

definition example_fmt4 :: "real \<Rightarrow> string" where
  "example_fmt4 x = str_int \<lfloor>x\<rfloor> @ ''.0000''"

definition young_oak :: TreeInstance where
  "young_oak = \<lparr>node_name = ''young'', tree_type = ''oak'', position = (1, 2, 3),
     rotation = (0, 0, 0), scale = (1, 1, 1), growth_state = 4, variation_index = 2,
     element = None, parent_element = None\<rparr>"

section \<open>Properties of the catalog\<close>

lemma parse_stages_inv:
  "map stage_index stgs = map int [1..<Suc (length stgs)] \<Longrightarrow> idx = int (length stgs) + 1 \<Longrightarrow>
   list_all (\<lambda>s. variations s \<noteq> []) stgs \<Longrightarrow>
   map stage_index (parse_stages pjoin bd es stgs idx) = map int [1..<Suc (length (parse_stages pjoin bd es stgs idx))]
   \<and> list_all (\<lambda>s. variations s \<noteq> []) (parse_stages pjoin bd es stgs idx)"
proof (induction es arbitrary: stgs idx)
  case Nil
  then show ?case by simp
next
  case (Cons e es)
  show ?case
  proof (cases "stage_variations pjoin bd e = []")
    case True
    then show ?thesis using Cons by simp
  next
    case False
    let ?s = "stgs @ [\<lparr>stage_index = idx, variations = stage_variations pjoin bd e\<rparr>]"
    have a: "map stage_index ?s = map int [1..<Suc (length ?s)]" using Cons.prems by simp
    have b: "idx + 1 = int (length ?s) + 1" using Cons.prems by simp
    have c: "list_all (\<lambda>s. variations s \<noteq> []) ?s" using Cons.prems False by simp
    from Cons.IH[OF a b c] False show ?thesis by (simp add: Let_def)
  qed
qed

lemma parse_stages_ok: "stages_ok (parse_stages pjoin bd es [] 1)"
  unfolding stages_ok_def by (rule parse_stages_inv) simp_all

lemma load_types_override:
  "fst (load_types pjoin bd es tt c) = tt ++ fst (load_types pjoin bd es Map.empty c')"
proof (induction es arbitrary: tt c c')
  case Nil show ?case by simp
next
  case (Cons e es)
  show ?case
    apply (simp add: Let_def)
    apply (intro conjI impI)
      apply (rule Cons.IH)
     apply (subst Cons.IH[where c'=0]) apply (subst (2) Cons.IH[where c'=0]) apply (simp add: map_add_assoc[symmetric]) 
     apply (rule Cons.IH)
    done
qed

lemma load_types_inv:
  "(\<forall>k d. tt k = Some d \<longrightarrow> stages_ok (stages d) \<and> stages d \<noteq> []) \<Longrightarrow> fst (load_types pjoin bd es tt c) k = Some d \<Longrightarrow> stages_ok (stages d) \<and> stages d \<noteq> []"
proof (induction es arbitrary: tt c)
  case Nil then show ?case by simp
next
  case (Cons e es)
  show ?case
    using Cons.prems(2)
    apply (simp add: Let_def split: if_splits)
      apply (erule Cons.IH[rotated]) using Cons.prems(1) apply blast
      apply (erule Cons.IH[rotated]) using Cons.prems(1) apply (auto simp: parse_stages_ok)[1]
      apply (erule Cons.IH[rotated]) using Cons.prems(1) apply blast
    done
qed

lemma load_from_xml_override:
  "fst (load_from_xml pjoin fs p bd tt) = tt ++ fst (load_from_xml pjoin fs p bd Map.empty)"
  unfolding load_from_xml_def
  by (cases "fs p") (simp_all add: Let_def load_types_override[where c'=0 and tt=tt])

lemma load_from_xml_inv:
  assumes "\<forall>k d. tt k = Some d \<longrightarrow> stages_ok (stages d) \<and> stages d \<noteq> []"
    and "fst (load_from_xml pjoin fs p bd tt) k = Some d"
  shows "stages_ok (stages d) \<and> stages d \<noteq> []"
proof (cases "fs p")
  case (Document r)
  with assms(2) have "fst (load_types pjoin bd (findall (case find_descendant r ''treeTypes'' of Some e \<Rightarrow> e | None \<Rightarrow> r) ''treeType'') tt 0) k = Some d"
    by (simp add: load_from_xml_def Let_def)
  from load_types_inv[OF assms(1) this] show ?thesis .
qed (use assms in \<open>auto simp: load_from_xml_def\<close>)

lemma load_from_map_inv:
  assumes inv: "\<forall>k d. tt k = Some d \<longrightarrow> stages_ok (stages d) \<and> stages d \<noteq> []"
    and res: "fst (load_from_map pjoin parent fs mp gd tt) k = Some d"
  shows "stages_ok (stages d) \<and> stages d \<noteq> []"
proof -
  define t1 where "t1 = (case gd of None \<Rightarrow> (tt, 0::int) | Some g \<Rightarrow>
     (let base_types_path = pjoin (pjoin g ''maps'') ''maps_treeTypes.xml'' in
                  if fs base_types_path \<noteq> Missing
                  then load_from_xml pjoin fs base_types_path (Some g) tt
                  else (tt, 0)))"
  have inv1: "\<forall>k d. fst t1 k = Some d \<longrightarrow> stages_ok (stages d) \<and> stages d \<noteq> []"
    using inv load_from_xml_inv[OF inv]
    by (auto simp: t1_def Let_def split: option.splits)
  have "fst (load_from_map pjoin parent fs mp gd tt) = fst t1 \<or>
        (\<exists>p b. fst (load_from_map pjoin parent fs mp gd tt) = fst (load_from_xml pjoin fs p b (fst t1)))"
    unfolding load_from_map_def t1_def[symmetric]
    by (auto simp: Let_def case_prod_beta split: source.splits option.splits)
  then show ?thesis using res inv1 load_from_xml_inv[OF inv1] by metis
qed

lemma load_sequence_inv:
  "\<forall>k d. tt k = Some d \<longrightarrow> stages_ok (stages d) \<and> stages d \<noteq> [] \<Longrightarrow>
   load_sequence pjoin parent ops tt k = Some d \<Longrightarrow> stages_ok (stages d) \<and> stages d \<noteq> []"
proof (induction ops arbitrary: tt)
  case Nil then show ?case by simp
next
  case (Cons op ops)
  have "\<forall>k d. load_op_run pjoin parent op tt k = Some d \<longrightarrow> stages_ok (stages d) \<and> stages d \<noteq> []"
    using load_from_xml_inv[OF Cons.prems(1)] load_from_map_inv[OF Cons.prems(1)]
    by (cases op) auto
  from Cons.IH[OF this] Cons.prems(2) show ?case by simp
qed

text \<open>The definitions that evaluate a load on the example sources.\<close>

lemmas eval_defs = load_from_xml_def example_files_def oak3_xml_def oak5_xml_def find_descendant_def
  findall_def get_default_def get_def stage_variations_def resolve_data_def startswith_def
  stage_file_def upper_def upper_char_def example_join_def Let_def oak5_desc_def



text \<open>
  C2: loading replaces, it does not merge. Whenever source B on its own defines the
  type \<open>n\<close> with descriptor \<open>d\<close>, then after loading any source A and then B, on any
  catalog, the catalog's descriptor for \<open>n\<close> is exactly \<open>d\<close> and \<open>get_max_stage\<close> is the
  number of stages of \<open>d\<close> (OAK with 3 stages, then OAK with 5 stages, gives 5).
\<close>

theorem load_replaces_same_name:
  assumes "fst (load_from_xml pjoin fsB pathB bdB Map.empty) (upper n) = Some d"
  shows "get_type (fst (load_from_xml pjoin fsB pathB bdB
                     (fst (load_from_xml pjoin fsA pathA bdA tree_types)))) n = Some d
       \<and> get_max_stage (fst (load_from_xml pjoin fsB pathB bdB
                     (fst (load_from_xml pjoin fsA pathA bdA tree_types)))) n = max_stage d"
proof -
  have "fst (load_from_xml pjoin fsB pathB bdB (fst (load_from_xml pjoin fsA pathA bdA tree_types))) (upper n) = Some d"
    by (subst load_from_xml_override) (simp add: assms)
  then show ?thesis by (simp add: get_type_def get_max_stage_def)
qed

theorem load_replaces_same_name_witness:
  "get_max_stage (fst (load_from_xml example_join example_files ''A.xml'' None Map.empty)) ''OAK'' = 3 \<and>
   get_max_stage (fst (load_from_xml example_join example_files ''B.xml'' (Some ''base'')
      (fst (load_from_xml example_join example_files ''A.xml'' None Map.empty)))) ''OAK'' = 5"
proof -
  have a: "get_max_stage (fst (load_from_xml example_join example_files ''A.xml'' None Map.empty)) ''OAK'' = 3"
    by (simp add: eval_defs get_max_stage_def get_type_def max_stage_def)
  have b: "fst (load_from_xml example_join example_files ''B.xml'' (Some ''base'') Map.empty) (upper ''OAK'') = Some oak5_desc"
    by (simp add: eval_defs)
  have c: "max_stage oak5_desc = 5" by (simp add: max_stage_def oak5_desc_def)
  from load_replaces_same_name[OF b, where fsA=example_files and pathA="''A.xml''" and bdA=None and tree_types=Map.empty] a c
  show ?thesis by simp
qed

text \<open>
  C9: in every descriptor the catalog holds after any run of load operations on a new
  loader, the stage at position \<open>i\<close> (from 0) has \<open>stage_index\<close> \<open>i + 1\<close> and at least one
  variation, also when source stages without variations were skipped.
\<close>

theorem stages_contiguous:
  assumes "load_sequence pjoin parent ops Map.empty k = Some d" and "i < length (stages d)"
  shows "stage_index (stages d ! i) = int i + 1 \<and> variations (stages d ! i) \<noteq> []"
proof -
  have "stages_ok (stages d)" using load_sequence_inv[OF _ assms(1)] by simp
  then have m: "map stage_index (stages d) = map int [1..<Suc (length (stages d))]"
    and v: "list_all (\<lambda>s. variations s \<noteq> []) (stages d)" by (simp_all add: stages_ok_def)
  have "stage_index (stages d ! i) = map stage_index (stages d) ! i" using assms(2) by simp
  also have "\<dots> = int i + 1" using assms(2) by (simp only: m) (simp del: upt_Suc)
  finally show ?thesis using v assms(2) by (simp add: list_all_length)
qed

theorem stages_contiguous_witness:
  "stage_index (stages oak5_desc ! 2) = 3 \<and> variations (stages oak5_desc ! 2) \<noteq> []"
proof -
  have a: "load_sequence example_join butlast
     [LoadXml example_files ''A.xml'' None, LoadXml example_files ''bad.xml'' None,
      LoadMap example_files ''map.xml'' None,
      LoadXml example_files ''B.xml'' (Some ''base'')] Map.empty ''OAK'' = Some oak5_desc"
    by (simp add: eval_defs load_from_map_def)
  have b: "2 < length (stages oak5_desc)" by (simp add: oak5_desc_def)
  from stages_contiguous[OF a b] show ?thesis by simp
qed

section \<open>Properties of the fallback classifier\<close>

lemma detect_in_first_match:
  "detect_in ps s = Some r \<longleftrightarrow>
     (\<exists>i<length ps. re_search (fst (ps ! i)) s \<and> snd (ps ! i) = r \<and>
        (\<forall>j<i. \<not> re_search (fst (ps ! j)) s))"
proof (induction ps)
  case Nil
  show ?case by simp
next
  case (Cons p ps)
  obtain pat ty st where p: "p = (pat, ty, st)" by (cases p)
  show ?case
  proof (cases "re_search pat s")
    case True
    have "(\<exists>i<length (p # ps). re_search (fst ((p # ps) ! i)) s \<and> snd ((p # ps) ! i) = r \<and>
        (\<forall>j<i. \<not> re_search (fst ((p # ps) ! j)) s)) \<longleftrightarrow> (ty, st) = r"
    proof
      assume "\<exists>i<length (p # ps). re_search (fst ((p # ps) ! i)) s \<and> snd ((p # ps) ! i) = r \<and>
        (\<forall>j<i. \<not> re_search (fst ((p # ps) ! j)) s)"
      then obtain i where i: "i < length (p # ps)" "snd ((p # ps) ! i) = r"
        "\<forall>j<i. \<not> re_search (fst ((p # ps) ! j)) s" by blast
      have "i = 0"
      proof (rule ccontr)
        assume "i \<noteq> 0"
        then have "\<not> re_search (fst ((p # ps) ! 0)) s" using i(3) by blast
        then show False using True p by simp
      qed
      then show "(ty, st) = r" using i(2) p by simp
    next
      assume "(ty, st) = r"
      then have "0 < length (p # ps) \<and> re_search (fst ((p # ps) ! 0)) s \<and> snd ((p # ps) ! 0) = r \<and>
        (\<forall>j<0. \<not> re_search (fst ((p # ps) ! j)) s)" using True p by simp
      then show "\<exists>i<length (p # ps). re_search (fst ((p # ps) ! i)) s \<and> snd ((p # ps) ! i) = r \<and>
        (\<forall>j<i. \<not> re_search (fst ((p # ps) ! j)) s)" by blast
    qed
    then show ?thesis using True p by auto
  next
    case False
    have "(\<exists>i<length (p # ps). re_search (fst ((p # ps) ! i)) s \<and> snd ((p # ps) ! i) = r \<and>
        (\<forall>j<i. \<not> re_search (fst ((p # ps) ! j)) s)) \<longleftrightarrow>
       (\<exists>i<length ps. re_search (fst (ps ! i)) s \<and> snd (ps ! i) = r \<and>
        (\<forall>j<i. \<not> re_search (fst (ps ! j)) s))" (is "?L \<longleftrightarrow> ?R")
    proof
      assume ?L
      then obtain i where i: "i < length (p # ps)" "re_search (fst ((p # ps) ! i)) s" "snd ((p # ps) ! i) = r"
        "\<forall>j<i. \<not> re_search (fst ((p # ps) ! j)) s" by blast
      from i(2) False p have "i \<noteq> 0" by (cases i) auto
      then obtain k where k: "i = Suc k" by (cases i) auto
      have "\<forall>j<k. \<not> re_search (fst (ps ! j)) s"
      proof (intro allI impI)
        fix j assume "j < k"
        then have "Suc j < i" using k by simp
        with i(4) have "\<not> re_search (fst ((p # ps) ! Suc j)) s" by blast
        then show "\<not> re_search (fst (ps ! j)) s" by simp
      qed
      with i k show ?R by auto
    next
      assume ?R
      then obtain i where i: "i < length ps" "re_search (fst (ps ! i)) s" "snd (ps ! i) = r"
        "\<forall>j<i. \<not> re_search (fst (ps ! j)) s" by blast
      have "\<forall>j<Suc i. \<not> re_search (fst ((p # ps) ! j)) s"
      proof (intro allI impI)
        fix j assume "j < Suc i"
        then show "\<not> re_search (fst ((p # ps) ! j)) s"
          using False p i(4) by (cases j) auto
      qed
      with i have "Suc i < length (p # ps) \<and> re_search (fst ((p # ps) ! Suc i)) s \<and> snd ((p # ps) ! Suc i) = r \<and>
        (\<forall>j<Suc i. \<not> re_search (fst ((p # ps) ! j)) s)" by simp
      then show ?L by blast
    qed
    then show ?thesis using False p Cons.IH by simp
  qed
qed

lemma name_lower_pinus: "name_lower ''pinussylvestris_stage03'' = ''pinussylvestrisstage03''"
  by (simp add: name_lower_def lower_def lower_char_def)

lemma detect_pinus: "detect_tree_type ''pinussylvestris_stage03'' = Some (''pinusSylvestris'', 5)"
  unfolding detect_tree_type_def name_lower_pinus
  by (simp add: TREE_PATTERNS_def alt_matches_at_def startswith_def)

lemma detect_generic_pine: "detect_tree_type ''pine_stage02'' = Some (''lodgepolePine'', 3)"
  unfolding detect_tree_type_def
  by (simp add: TREE_PATTERNS_def alt_matches_at_def startswith_def name_lower_def lower_def
      lower_char_def)

text \<open>
  C5: \<open>detect_tree_type\<close> returns the entry of the first pattern of \<open>TREE_PATTERNS\<close>, in
  order, that is found in the normalized name (lowercased, with \<open>_\<close>, \<open>-\<close> and spaces
  removed), and \<open>None\<close> when there is none; and the name \<open>pinussylvestris_stage03\<close> is
  classified as \<open>pinusSylvestris\<close> with max stage 5, not as the generic pine.
\<close>

theorem detect_tree_type_first_match:
  "(detect_tree_type name = Some r \<longleftrightarrow>
      (\<exists>i<length TREE_PATTERNS.
         re_search (fst (TREE_PATTERNS ! i)) (name_lower name) \<and> snd (TREE_PATTERNS ! i) = r \<and>
         (\<forall>j<i. \<not> re_search (fst (TREE_PATTERNS ! j)) (name_lower name))))
   \<and> (detect_tree_type name = None \<longleftrightarrow>
      (\<forall>i<length TREE_PATTERNS. \<not> re_search (fst (TREE_PATTERNS ! i)) (name_lower name)))
   \<and> name_lower ''pinussylvestris_stage03'' = ''pinussylvestrisstage03''
   \<and> detect_tree_type ''pinussylvestris_stage03'' = Some (''pinusSylvestris'', 5)"
proof -
  have none: "detect_in ps s = None \<longleftrightarrow> (\<forall>i<length ps. \<not> re_search (fst (ps ! i)) s)" for ps s
  proof (induction ps)
    case Nil
    show ?case by simp
  next
    case (Cons p ps)
    obtain pat ty st where p: "p = (pat, ty, st)" by (cases p)
    show ?case using Cons.IH p by (auto simp: nth_Cons split: nat.splits)
  qed
  show ?thesis
    unfolding detect_tree_type_def[symmetric]
    using detect_in_first_match[of TREE_PATTERNS "name_lower name" r]
      none[of TREE_PATTERNS "name_lower name"] detect_pinus name_lower_pinus
    by (simp add: detect_tree_type_def)
qed

theorem detect_tree_type_first_match_witness:
  "detect_tree_type ''pinussylvestris_stage03'' = Some (''pinusSylvestris'', 5) \<and>
   (\<exists>i<length TREE_PATTERNS.
      re_search (fst (TREE_PATTERNS ! i)) (name_lower ''pine_stage02'') \<and>
      snd (TREE_PATTERNS ! i) = (''lodgepolePine'', 3) \<and>
      (\<forall>j<i. \<not> re_search (fst (TREE_PATTERNS ! j)) (name_lower ''pine_stage02'')))"
  using detect_tree_type_first_match[of "''pine_stage02''" "(''lodgepolePine'', 3)"]
    detect_generic_pine
  by simp

section \<open>Properties of matrix composition\<close>





lemma round_double_tenth: "round_double (1 / 10) = 3602879701896397 / 36028797018963968"
  by code_simp


















section \<open>Properties of the decomposition\<close>













section \<open>Properties of the scene walker\<close>

lemma emitted_append: "emitted (xs @ ys) = emitted xs \<union> emitted ys"
  by (auto simp: emitted_def)

lemma emitted_Nil: "emitted [] = {}"
  by (simp add: emitted_def)

lemma node_instances_emitted:
  assumes "node_instances ns parent_name reg elem path parent_path wm scl c = Inr new"
  shows "emitted new = (if classified ns reg elem \<and> collecting parent_name c then {path} else {})"
  using assms
  by (auto simp: node_instances_def classified_def resolvable_def emitted_def Let_def
      split: if_splits option.splits sum.splits prod.splits)

lemma node_step_emitted:
  assumes "node_step pfloat ns parent_name reg elem path parent_path pm c st = Inr (wm, c', st')"
  shows "c' = (c \<or> named parent_name elem) \<and>
         (\<exists>new. fst st' = fst st @ new \<and>
            emitted new = (if emits ns parent_name reg elem [] c then {path} else {}))"
  using assms node_instances_emitted
  by (auto simp: node_step_def Let_def named_def split: sum.splits prod.splits)

lemma scan_emitted:
  "(scan_node pfloat ns parent_name reg elem path parent_path pm c st = Inr st' \<longrightarrow>
      (\<exists>new. fst st' = fst st @ new \<and>
         emitted new = {path @ q | q. emits ns parent_name reg elem q c}))"
  "(scan_children pfloat ns parent_name reg cs path i wm c st = Inr st' \<longrightarrow>
      (\<exists>new. fst st' = fst st @ new \<and>
         emitted new = {path @ (i + k) # q | k q. k < length cs \<and> scanned_tag ns (cs ! k) \<and>
                          emits ns parent_name reg (cs ! k) q c}))"
proof (induction pfloat ns parent_name reg elem path parent_path pm c st
    and pfloat ns parent_name reg cs path i wm c st
    arbitrary: st' and st' rule: scan_node_scan_children.induct)
  case (1 pfloat ns parent_name reg tg attrs cs path parent_path parent_matrix in_tree_parent st)
  show ?case
  proof
    assume a: "scan_node pfloat ns parent_name reg (Element tg attrs cs) path parent_path parent_matrix in_tree_parent st = Inr st'"
    then obtain wm c' st1 where step: "node_step pfloat ns parent_name reg (Element tg attrs cs) path parent_path parent_matrix in_tree_parent st = Inr (wm, c', st1)"
      and ch: "scan_children pfloat ns parent_name reg cs path 0 wm c' st1 = Inr st'"
      by (auto split: sum.splits prod.splits)
    from node_step_emitted[OF step] obtain new0 where
      c': "c' = (in_tree_parent \<or> named parent_name (Element tg attrs cs))" and
      n0: "fst st1 = fst st @ new0"
      "emitted new0 = (if emits ns parent_name reg (Element tg attrs cs) [] in_tree_parent then {path} else {})"
      by blast
    from "1.IH"[OF step refl refl, of st'] ch obtain new1 where
      n1: "fst st' = fst st1 @ new1"
      "emitted new1 = {path @ (0 + k) # q | k q. k < length cs \<and> scanned_tag ns (cs ! k) \<and>
                          emits ns parent_name reg (cs ! k) q c'}"
      by blast
    have "emitted (new0 @ new1) = {path @ q | q. emits ns parent_name reg (Element tg attrs cs) q in_tree_parent}"
      (is "?L = ?R")
    proof
      show "?L \<subseteq> ?R"
      proof
        fix p assume "p \<in> ?L"
        then consider "p \<in> emitted new0" | "p \<in> emitted new1" by (auto simp: emitted_append)
        then show "p \<in> ?R"
        proof cases
          case 1
          then have "emits ns parent_name reg (Element tg attrs cs) [] in_tree_parent" "p = path @ []"
            using n0(2) by (auto split: if_splits)
          then show ?thesis by blast
        next
          case 2
          then obtain k q where "p = path @ k # q" "k < length cs" "scanned_tag ns (cs ! k)"
            "emits ns parent_name reg (cs ! k) q c'" using n1(2) by auto
          then have "emits ns parent_name reg (Element tg attrs cs) (k # q) in_tree_parent"
            by (simp add: c')
          with \<open>p = path @ k # q\<close> show ?thesis by blast
        qed
      qed
      show "?R \<subseteq> ?L"
      proof
        fix p assume "p \<in> ?R"
        then obtain q where q: "p = path @ q" "emits ns parent_name reg (Element tg attrs cs) q in_tree_parent"
          by blast
        show "p \<in> ?L"
        proof (cases q)
          case Nil
          then show ?thesis using q n0(2) by (simp add: emitted_append)
        next
          case (Cons k q')
          then have "k < length cs" "scanned_tag ns (cs ! k)" "emits ns parent_name reg (cs ! k) q' c'"
            using q(2) by (simp_all add: c')
          then have "p \<in> emitted new1" using n1(2) q(1) Cons by auto
          then show ?thesis by (simp add: emitted_append)
        qed
      qed
    qed
    moreover have "fst st' = fst st @ (new0 @ new1)" using n0(1) n1(1) by simp
    ultimately show "\<exists>new. fst st' = fst st @ new \<and>
         emitted new = {path @ q | q. emits ns parent_name reg (Element tg attrs cs) q in_tree_parent}"
      by blast
  qed
next
  case (2 pfloat ns parent_name reg path i world_matrix in_tree_parent st)
  show ?case by (auto simp: emitted_Nil intro!: exI[of _ "[]"])
next
  case (3 pfloat ns parent_name reg child rest path i world_matrix in_tree_parent st)
  show ?case
  proof
    assume a: "scan_children pfloat ns parent_name reg (child # rest) path i world_matrix in_tree_parent st = Inr st'"
    let ?E = "\<lambda>cs i. {path @ (i + k) # q | k q. k < length cs \<and> scanned_tag ns (cs ! k) \<and>
                          emits ns parent_name reg (cs ! k) q in_tree_parent}"
    have split: "?E (child # rest) i =
        (if scanned_tag ns child then {path @ i # q | q. emits ns parent_name reg child q in_tree_parent} else {})
        \<union> ?E rest (Suc i)" (is "?L = ?A \<union> ?B")
    proof
      show "?L \<subseteq> ?A \<union> ?B"
      proof
        fix p assume "p \<in> ?L"
        then obtain k q where kq: "p = path @ (i + k) # q" "k < length (child # rest)"
          "scanned_tag ns ((child # rest) ! k)" "emits ns parent_name reg ((child # rest) ! k) q in_tree_parent"
          by blast
        show "p \<in> ?A \<union> ?B"
        proof (cases k)
          case 0
          then show ?thesis using kq by auto
        next
          case (Suc k')
          then have "p = path @ (Suc i + k') # q" "k' < length rest" "scanned_tag ns (rest ! k')"
            "emits ns parent_name reg (rest ! k') q in_tree_parent" using kq by simp_all
          then have "p \<in> ?B" by blast
          then show ?thesis by simp
        qed
      qed
      show "?A \<union> ?B \<subseteq> ?L"
      proof
        fix p assume "p \<in> ?A \<union> ?B"
        then consider "p \<in> ?A" | "p \<in> ?B" by blast
        then show "p \<in> ?L"
        proof cases
          case 1
          then obtain q where "scanned_tag ns child" "p = path @ i # q" "emits ns parent_name reg child q in_tree_parent"
            by (auto split: if_splits)
          then have "p = path @ (i + 0) # q \<and> 0 < length (child # rest) \<and> scanned_tag ns ((child # rest) ! 0) \<and>
            emits ns parent_name reg ((child # rest) ! 0) q in_tree_parent" by simp
          then show ?thesis by blast
        next
          case 2
          then obtain k q where "p = path @ (Suc i + k) # q" "k < length rest" "scanned_tag ns (rest ! k)"
            "emits ns parent_name reg (rest ! k) q in_tree_parent" by blast
          then have "p = path @ (i + Suc k) # q \<and> Suc k < length (child # rest) \<and> scanned_tag ns ((child # rest) ! Suc k) \<and>
            emits ns parent_name reg ((child # rest) ! Suc k) q in_tree_parent" by simp
          then show ?thesis by blast
        qed
      qed
    qed
    show "\<exists>new. fst st' = fst st @ new \<and> emitted new = ?E (child # rest) i"
    proof (cases "scanned_tag ns child")
      case True
      with a obtain st1 where s1: "scan_node pfloat ns parent_name reg child (path @ [i]) path world_matrix in_tree_parent st = Inr st1"
        and s2: "scan_children pfloat ns parent_name reg rest path (Suc i) world_matrix in_tree_parent st1 = Inr st'"
        by (auto split: sum.splits)
      from "3.IH"(1)[OF True, of st1] s1 obtain new0 where
        n0: "fst st1 = fst st @ new0" "emitted new0 = {(path @ [i]) @ q | q. emits ns parent_name reg child q in_tree_parent}"
        by blast
      from "3.IH"(2)[OF True s1, of st'] s2 obtain new1 where
        n1: "fst st' = fst st1 @ new1" "emitted new1 = ?E rest (Suc i)" by blast
      have "fst st' = fst st @ (new0 @ new1)" using n0 n1 by simp
      moreover have "emitted (new0 @ new1) = ?E (child # rest) i"
        unfolding split emitted_append n0(2) n1(2) using True by simp
      ultimately show ?thesis by blast
    next
      case False
      with a have s2: "scan_children pfloat ns parent_name reg rest path (Suc i) world_matrix in_tree_parent st = Inr st'"
        by simp
      from "3.IH"(3)[OF False, of st'] s2 obtain new1 where
        n1: "fst st' = fst st @ new1" "emitted new1 = ?E rest (Suc i)" by blast
      have "emitted new1 = ?E (child # rest) i" unfolding split n1(2) using False by simp
      with n1(1) show ?thesis by blast
    qed
  qed
qed

lemma nodes_on_path_nonempty: "nodes_on_path elem q \<noteq> []"
  by (cases q) simp_all

lemma emits_iff:
  "emits ns parent_name reg elem q c \<longleftrightarrow>
     reaches ns elem q \<and> classified ns reg (last (nodes_on_path elem q)) \<and>
     collecting parent_name (c \<or> (\<exists>n\<in>set (nodes_on_path elem q). named parent_name n))"
proof (induction q arbitrary: elem c)
  case Nil
  show ?case by simp
next
  case (Cons i q)
  show ?case
    by (auto simp: Cons.IH nodes_on_path_nonempty collecting_def)
qed

lemma reaches_snoc:
  "reaches ns elem (q @ [k]) \<longleftrightarrow>
     reaches ns elem q \<and> k < length (children (last (nodes_on_path elem q))) \<and>
     scanned_tag ns (children (last (nodes_on_path elem q)) ! k)"
  by (induction q arbitrary: elem) (auto simp: nodes_on_path_nonempty)

lemma nodes_on_path_snoc:
  "reaches ns elem (q @ [k]) \<Longrightarrow>
     nodes_on_path elem (q @ [k]) =
       nodes_on_path elem q @ [children (last (nodes_on_path elem q)) ! k]"
  by (induction q arbitrary: elem) (auto simp: nodes_on_path_nonempty)

lemma scan_scene_emitted:
  "scan_scene pfloat ns parent_name reg cs i st = Inr st' \<Longrightarrow>
     \<exists>new. fst st' = fst st @ new \<and>
       emitted new = {(i + k) # q | k q. k < length cs \<and>
                         emits ns parent_name reg (cs ! k) q (parent_name = None)}"
proof (induction cs arbitrary: i st)
  case Nil
  then show ?case by (auto simp: emitted_Nil)
next
  case (Cons child rest)
  let ?E = "\<lambda>cs i. {(i + k) # q | k q. k < length cs \<and>
                         emits ns parent_name reg (cs ! k) q (parent_name = None)}"
  from Cons.prems obtain st1 where
    s1: "scan_node pfloat ns parent_name reg child [i] [] identity (parent_name = None) st = Inr st1"
    and s2: "scan_scene pfloat ns parent_name reg rest (Suc i) st1 = Inr st'"
    by (auto split: sum.splits)
  from scan_emitted(1)[of pfloat ns parent_name reg child "[i]" "[]" identity "parent_name = None" st st1] s1
  obtain new0 where n0: "fst st1 = fst st @ new0"
    "emitted new0 = {[i] @ q | q. emits ns parent_name reg child q (parent_name = None)}" by blast
  from Cons.IH[OF s2] obtain new1 where n1: "fst st' = fst st1 @ new1" "emitted new1 = ?E rest (Suc i)"
    by blast
  have "?E (child # rest) i = {[i] @ q | q. emits ns parent_name reg child q (parent_name = None)} \<union> ?E rest (Suc i)"
    (is "?L = ?A \<union> ?B")
  proof
    show "?L \<subseteq> ?A \<union> ?B"
    proof
      fix p assume "p \<in> ?L"
      then obtain k q where kq: "p = (i + k) # q" "k < length (child # rest)"
        "emits ns parent_name reg ((child # rest) ! k) q (parent_name = None)" by blast
      show "p \<in> ?A \<union> ?B"
      proof (cases k)
        case 0
        then show ?thesis using kq by auto
      next
        case (Suc k')
        then have "p = (Suc i + k') # q" "k' < length rest"
          "emits ns parent_name reg (rest ! k') q (parent_name = None)" using kq by simp_all
        then have "p \<in> ?B" by blast
        then show ?thesis by simp
      qed
    qed
    show "?A \<union> ?B \<subseteq> ?L"
    proof
      fix p assume "p \<in> ?A \<union> ?B"
      then consider "p \<in> ?A" | "p \<in> ?B" by blast
      then show "p \<in> ?L"
      proof cases
        case 1
        then obtain q where "p = i # q" "emits ns parent_name reg child q (parent_name = None)" by auto
        then have "p = (i + 0) # q \<and> 0 < length (child # rest) \<and>
          emits ns parent_name reg ((child # rest) ! 0) q (parent_name = None)" by simp
        then show ?thesis by blast
      next
        case 2
        then obtain k q where "p = (Suc i + k) # q" "k < length rest"
          "emits ns parent_name reg (rest ! k) q (parent_name = None)" by blast
        then have "p = (i + Suc k) # q \<and> Suc k < length (child # rest) \<and>
          emits ns parent_name reg ((child # rest) ! Suc k) q (parent_name = None)" by simp
        then show ?thesis by blast
      qed
    qed
  qed
  moreover have "fst st' = fst st @ (new0 @ new1)" using n0 n1 by simp
  ultimately show ?case using n0(2) n1(2) by (metis emitted_append)
qed

lemma find_trees_emitted:
  assumes scene: "find_element ns root_elem ''Scene'' = Some scene"
    and run: "find_trees pfloat stem root_elem ns loader parent_name tps = Inr (trees, tps')"
  shows "(\<exists>t\<in>set trees. element t = Some (i # q)) \<longleftrightarrow>
     i < length (children scene) \<and>
     emits ns parent_name (build_file_id_map stem ns loader root_elem) (children scene ! i) q
       (parent_name = None)"
proof -
  let ?reg = "build_file_id_map stem ns loader root_elem"
  from run scene have "scan_scene pfloat ns parent_name ?reg (children scene) 0 ([], tps) = Inr (trees, tps')"
    by (simp add: find_trees_def Let_def)
  from scan_scene_emitted[OF this] have
    "emitted trees = {(0 + k) # q | k q. k < length (children scene) \<and>
                         emits ns parent_name ?reg (children scene ! k) q (parent_name = None)}"
    by simp
  then have "i # q \<in> emitted trees \<longleftrightarrow> i < length (children scene) \<and>
     emits ns parent_name ?reg (children scene ! i) q (parent_name = None)" by auto
  then show ?thesis by (simp add: emitted_def)
qed


text \<open>
  C10: a reference node whose reference does not resolve yields no instance, whatever
  its name, and the traversal goes on below it: a child it descends into yields an
  instance exactly when it is classified and collecting, as anywhere else.
\<close>

theorem unresolved_reference:
  assumes scene: "find_element ns root_elem ''Scene'' = Some scene"
    and run: "find_trees pfloat stem root_elem ns loader parent_name tps = Inr (trees, tps')"
    and i: "i < length (children scene)"
    and reach: "reaches ns (children scene ! i) q"
    and node: "node = last (nodes_on_path (children scene ! i) q)"
    and ref: "local_tag ns (tag node) = ''ReferenceNode''"
    and unres: "\<not> resolvable (build_file_id_map stem ns loader root_elem) node"
  shows "(\<forall>t\<in>set trees. element t \<noteq> Some (i # q)) \<and>
         (\<forall>k<length (children node). scanned_tag ns (children node ! k) \<longrightarrow>
            ((\<exists>t\<in>set trees. element t = Some (i # q @ [k])) \<longleftrightarrow>
             classified ns (build_file_id_map stem ns loader root_elem) (children node ! k) \<and>
             collecting parent_name
               (parent_name = None \<or>
                (\<exists>n\<in>set (nodes_on_path (children scene ! i) q @ [children node ! k]).
                   named parent_name n))))"
proof (intro conjI allI impI)
  have "\<not> (\<exists>t\<in>set trees. element t = Some (i # q))"
    using ref unres node
    by (simp add: find_trees_emitted[OF scene run] emits_iff classified_def)
  then show "\<forall>t\<in>set trees. element t \<noteq> Some (i # q)" by blast
next
  fix k assume k: "k < length (children node)" "scanned_tag ns (children node ! k)"
  then have r: "reaches ns (children scene ! i) (q @ [k])"
    using reach node by (simp add: reaches_snoc)
  show "(\<exists>t\<in>set trees. element t = Some (i # q @ [k])) \<longleftrightarrow>
             classified ns (build_file_id_map stem ns loader root_elem) (children node ! k) \<and>
             collecting parent_name
               (parent_name = None \<or>
                (\<exists>n\<in>set (nodes_on_path (children scene ! i) q @ [children node ! k]).
                   named parent_name n))"
    using i r node
    by (simp add: find_trees_emitted[OF scene run] emits_iff nodes_on_path_snoc[OF r])
qed

section \<open>The walker and the serializer on the examples\<close>

lemma example_find_scene: "find_element None example_i3d ''Scene'' = Some example_scene"
  by (simp add: find_element_def find_descendant_def example_i3d_def example_scene_def)

lemma example_stem_oak: "example_stem ''$data/maps/trees/oak/oak_stage05.i3d'' = ''oak_stage05''"
  by (simp add: example_stem_def)

lemma detect_oak: "detect_tree_type ''oak_stage05'' = Some (''oak'', 5)"
  unfolding detect_tree_type_def
  by (simp add: TREE_PATTERNS_def alt_matches_at_def startswith_def name_lower_def lower_def
      lower_char_def)

lemma stage_oak: "search_number ''stage'' (lower ''oak_stage05'') = Some 5"
  "search_number ''var'' (lower ''oak_stage05'') = None"
  by (simp_all add: match_number_at_def startswith_def is_digit_def int_of_digits_def
      digit_value_def lower_def lower_char_def)

lemma example_build: "build_file_id_map example_stem None None example_i3d = example_registry"
  by (simp add: build_file_id_map_def example_i3d_def local_tag_def get_def get_default_def
      endswith_def startswith_def example_stem_oak detect_oak stage_oak example_registry_def)

lemma transform_matrix_translation:
  "transform_matrix tx ty tz 0 0 0 1 1 1 = [[1, 0, 0, tx], [0, 1, 0, ty], [0, 0, 1, tz], [0, 0, 0, 1]]"
  by (simp add: transform_matrix_def rotation_matrix_def radians_def)

lemma multiply_translations:
  "multiply_matrices [[1, 0, 0, a], [0, 1, 0, b], [0, 0, 1, c], [0, 0, 0, 1]]
     [[1, 0, 0, x], [0, 1, 0, y], [0, 0, 1, z], [0, 0, 0, 1 :: real]] =
   Inr [[1, 0, 0, x + a], [0, 1, 0, y + b], [0, 0, 1, z + c], [0, 0, 0, 1]]"
  by (simp add: multiply_matrices_def has_4x4_def entry_def)

lemma extract_translation:
  "extract_world_transform [[1, 0, 0, x], [0, 1, 0, y], [0, 0, 1, z], [0, 0, 0, 1]] =
   Inr ((x, y, z), (0, 0, 0))"
  by (simp add: extract_world_transform_def atan2_def degrees_def Let_def)

lemma parse_examples:
  "parse_vector float_of_digits (Some ''5 0 0'') d = [5, 0, 0]"
  "parse_vector float_of_digits (Some ''10 0 20'') d = [10, 0, 20]"
  "parse_vector float_of_digits None d = d"
  by (simp_all add: parse_vector_def split_def is_space_def float_of_digits_def is_digit_def
      int_of_digits_def digit_value_def)

lemma node_matrices_examples:
  "node_matrices float_of_digits (Element tg [(''name'', n), (''translation'', ''5 0 0'')] cs)
     [[1, 0, 0, 0], [0, 1, 0, 0], [0, 0, 1, 0], [0, 0, 0, 1]]
     = Inr ([[1, 0, 0, 5], [0, 1, 0, 0], [0, 0, 1, 0], [0, 0, 0, 1]], (1, 1, 1))"
  "node_matrices float_of_digits
     (Element tg [(''name'', n), (''referenceId'', r), (''translation'', ''10 0 20'')] cs)
     [[1, 0, 0, 5], [0, 1, 0, 0], [0, 0, 1, 0], [0, 0, 0, 1]]
     = Inr ([[1, 0, 0, 15], [0, 1, 0, 0], [0, 0, 1, 20], [0, 0, 0, 1]], (1, 1, 1))"
  "node_matrices float_of_digits (Element tg [(''name'', n), (''referenceId'', r)] cs)
     [[1, 0, 0, 0], [0, 1, 0, 0], [0, 0, 1, 0], [0, 0, 0, 1]]
     = Inr ([[1, 0, 0, 0], [0, 1, 0, 0], [0, 0, 1, 0], [0, 0, 0, 1]], (1, 1, 1))"
  by (simp_all add: node_matrices_def get_def parse_examples vec3_def transform_matrix_translation
      multiply_translations)

lemma detect_none: "detect_tree_type ''Trees'' = None"
  unfolding detect_tree_type_def
  by (simp add: TREE_PATTERNS_def alt_matches_at_def startswith_def name_lower_def lower_def
      lower_char_def)

lemma lower_examples: "lower ''Trees'' = ''trees''" "lower ''trees'' = ''trees''"
  "lower ''tree1'' = ''tree1''" "lower ''tree2'' = ''tree2''" "lower ''tree3'' = ''tree3''"
  "lower ''oak_stage03'' = ''oak_stage03''"
  by (simp_all add: lower_def lower_char_def)


lemma example_run_all:
  "find_trees float_of_digits example_stem example_i3d None None None [] =
     Inr ([tree1, tree2, tree3], [])"
  unfolding find_trees_def example_build example_find_scene Let_def
  by (simp add: example_scene_def example_i3d_def node_step_def node_matrices_examples
      node_instances_def scanned_tag_def local_tag_def get_def get_default_def is_tree_parent_def
      collecting_def lower_examples detect_none example_registry_def extract_translation
      identity_def tree1_def tree2_def tree3_def)


theorem unresolved_reference_witness:
  "detect_tree_type ''oak_stage03'' = Some (''oak'', 5) \<and>
   \<not> (\<exists>t\<in>set [tree1, tree2, tree3]. element t = Some [2]) \<and>
   (\<exists>t\<in>set [tree1, tree2, tree3]. element t = Some [2, 0])"
proof -
  have d: "detect_tree_type ''oak_stage03'' = Some (''oak'', 5)"
    unfolding detect_tree_type_def
    by (simp add: TREE_PATTERNS_def alt_matches_at_def startswith_def name_lower_def lower_def
        lower_char_def)
  have "(\<forall>t\<in>set [tree1, tree2, tree3]. element t \<noteq> Some (2 # [])) \<and>
        (\<forall>k<length (children (children example_scene ! 2)).
           scanned_tag None (children (children example_scene ! 2) ! k) \<longrightarrow>
           ((\<exists>t\<in>set [tree1, tree2, tree3]. element t = Some (2 # [] @ [k])) \<longleftrightarrow>
            classified None (build_file_id_map example_stem None None example_i3d)
              (children (children example_scene ! 2) ! k) \<and>
            collecting None
              (None = (None :: string option) \<or>
               (\<exists>n\<in>set (nodes_on_path (children example_scene ! 2) [] @
                         [children (children example_scene ! 2) ! k]).
                  named None n))))"
    by (rule unresolved_reference[OF example_find_scene example_run_all])
      (unfold example_build, simp_all add: example_scene_def example_i3d_def scanned_tag_def
        local_tag_def resolvable_def get_def example_registry_def)
  then show ?thesis
    using d unfolding example_build
    by (simp add: example_scene_def example_i3d_def scanned_tag_def local_tag_def
        resolvable_def classified_def collecting_def get_def example_registry_def)
qed

lemma parse_vector_unparsable:
  assumes "f \<in> set (split v)" and "pfloat f = None"
  shows "parse_vector pfloat (Some v) d = d"
  using assms by (auto simp: parse_vector_def list_all_iff)

text \<open>
  C6 on a translation with two components: \<open>parse_vector\<close> returns the two numbers, not
  the default, and \<open>find_trees\<close> raises \<open>IndexError\<close> when it reads the third.
\<close>

theorem short_vector_raises:
  assumes "pfloat ''1'' = Some a" and "pfloat ''2'' = Some b"
  shows "parse_vector pfloat (Some ''1 2'') [0, 0, 0] = [a, b] \<and>
         find_trees pfloat stem short_vector_i3d None loader parent_name tps = Inl IndexError"
proof -
  have p: "parse_vector pfloat (Some ''1 2'') [0, 0, 0] = [a, b]"
    using assms by (simp add: parse_vector_def split_def is_space_def)
  have scene: "find_element None short_vector_i3d ''Scene'' =
      Some (Element ''Scene'' []
          [Element ''TransformGroup'' [(''name'', ''group''), (''translation'', ''1 2'')] []])"
    by (simp add: find_element_def find_descendant_def short_vector_i3d_def)
  have "node_matrices pfloat
      (Element ''TransformGroup'' [(''name'', ''group''), (''translation'', ''1 2'')] []) m
      = Inl IndexError" for m
    by (simp add: node_matrices_def get_def p vec3_def)
  then have "find_trees pfloat stem short_vector_i3d None loader parent_name tps = Inl IndexError"
    unfolding find_trees_def scene Let_def by (simp add: node_step_def)
  with p show ?thesis by simp
qed

theorem short_vector_raises_witness:
  "parse_vector float_of_digits (Some ''1 2'') [0, 0, 0] = [1, 2] \<and>
   find_trees float_of_digits example_stem short_vector_i3d None None None [] = Inl IndexError"
  using short_vector_raises[of float_of_digits 1 2 example_stem None None "[]"]
  by (simp add: float_of_digits_def is_digit_def int_of_digits_def digit_value_def)

text \<open>
  C1: the record of the tree at position \<open>i\<close> is line \<open>i + 2\<close> of the file, and its
  \<open>isGrowing\<close> attribute is \<open>false\<close> exactly when the growth state is at least the max stage
  of its type: the stage count of the loaded descriptor, else the entry of \<open>MAX_STAGES\<close>,
  else 5.
\<close>

theorem growing_flag:
  assumes "i < length trees"
  shows "fst (generate_treeplant_xml fmt4 trees loader) ! (i + 2) =
           tree_line (tree_attrs fmt4 loader (trees ! i)) \<and>
         map_of (tree_attrs fmt4 loader (trees ! i)) ''isGrowing'' =
           Some (if growth_state (trees ! i) \<ge>
                    (case loader of
                       Some catalog \<Rightarrow>
                         (case catalog (upper (tree_type (trees ! i))) of
                            Some d \<Rightarrow> int (length (stages d))
                          | None \<Rightarrow>
                              (case map_of MAX_STAGES (upper (tree_type (trees ! i))) of
                                 Some n \<Rightarrow> n | None \<Rightarrow> 5))
                     | None \<Rightarrow>
                         (case map_of MAX_STAGES (upper (tree_type (trees ! i))) of
                            Some n \<Rightarrow> n | None \<Rightarrow> 5))
                 then ''false'' else ''true'')"
proof -
  have "fst (generate_treeplant_xml fmt4 trees loader) ! (i + 2) =
           tree_line (tree_attrs fmt4 loader (trees ! i))"
    using assms by (simp add: generate_treeplant_xml_def nth_append)
  moreover have "map_of (tree_attrs fmt4 loader t) ''isGrowing'' =
      Some (if growth_state t \<ge>
                    (case loader of
                       Some catalog \<Rightarrow>
                         (case catalog (upper (tree_type t)) of
                            Some d \<Rightarrow> int (length (stages d))
                          | None \<Rightarrow>
                              (case map_of MAX_STAGES (upper (tree_type t)) of
                                 Some n \<Rightarrow> n | None \<Rightarrow> 5))
                     | None \<Rightarrow>
                         (case map_of MAX_STAGES (upper (tree_type t)) of
                            Some n \<Rightarrow> n | None \<Rightarrow> 5))
                 then ''false'' else ''true'')" for t
    by (simp add: tree_attrs_def is_at_final_stage_def Let_def get_max_stage_def get_type_def
        max_stage_def max_stages_get_def split: option.splits)
  ultimately show ?thesis by simp
qed

lemma upper_oak: "upper ''oak'' = ''OAK''"
  by (simp add: upper_def upper_char_def)

theorem growing_flag_witness:
  "map_of (tree_attrs example_fmt4 None ([tree1, young_oak] ! 0)) ''isGrowing'' = Some ''false'' \<and>
   map_of (tree_attrs example_fmt4 None ([tree1, young_oak] ! 1)) ''isGrowing'' = Some ''true'' \<and>
   map_of (tree_attrs example_fmt4 (Some [''OAK'' \<mapsto> oak5_desc\<lparr>stages := take 4 (stages oak5_desc)\<rparr>])
             ([tree1, young_oak] ! 1)) ''isGrowing'' = Some ''false''"
  using growing_flag[of 0 "[tree1, young_oak]" example_fmt4 None]
    growing_flag[of 1 "[tree1, young_oak]" example_fmt4 None]
    growing_flag[of 1 "[tree1, young_oak]" example_fmt4
      "Some [''OAK'' \<mapsto> oak5_desc\<lparr>stages := take 4 (stages oak5_desc)\<rparr>]"]
  by (simp add: tree1_def young_oak_def upper_oak MAX_STAGES_def oak5_desc_def)

end
